theory Spec2Isabelle
  imports Complex_Main
begin

section \<open>Floating-point values\<close>

text \<open>
  The Python code computes with IEEE doubles (Python \<open>float\<close>, \<open>numpy.float64\<close>).
  A value is modelled as a real number, one of the two infinities, or NaN. The basic
  operations \<open>fl_add\<close>, \<open>fl_sub\<close>, \<open>fl_mul\<close> and \<open>np_div\<close> compute the exact result on
  finite values (no signed zero); the special values follow IEEE: every comparison with
  NaN is false, a NaN operand gives NaN, \<open>inf - inf\<close> and \<open>0 * inf\<close> are NaN. The rounding
  of an exact result to the nearest double is the separate step \<open>fl_rnd\<close> below;
  \<open>adaptive_sl\<close>, the stop-loss computation of the live engine, whose result is compared
  with one of its own operands, applies it after every operation.
\<close>

datatype fl = Fin real | PInf | NInf | NaN

fun fl_lt :: "fl \<Rightarrow> fl \<Rightarrow> bool" where
  "fl_lt (Fin x) (Fin y) = (x < y)"
| "fl_lt (Fin x) PInf = True"
| "fl_lt NInf (Fin y) = True"
| "fl_lt NInf PInf = True"
| "fl_lt _ _ = False"

fun fl_le :: "fl \<Rightarrow> fl \<Rightarrow> bool" where
  "fl_le (Fin x) (Fin y) = (x \<le> y)"
| "fl_le (Fin x) PInf = True"
| "fl_le NInf (Fin y) = True"
| "fl_le NInf PInf = True"
| "fl_le NInf NInf = True"
| "fl_le PInf PInf = True"
| "fl_le _ _ = False"

abbreviation fl_gt :: "fl \<Rightarrow> fl \<Rightarrow> bool" where
  "fl_gt a b \<equiv> fl_lt b a"

abbreviation fl_ge :: "fl \<Rightarrow> fl \<Rightarrow> bool" where
  "fl_ge a b \<equiv> fl_le b a"

fun isnan :: "fl \<Rightarrow> bool" where
  "isnan NaN = True"
| "isnan _ = False"

fun isinf :: "fl \<Rightarrow> bool" where
  "isinf PInf = True"
| "isinf NInf = True"
| "isinf _ = False"

definition inf_of_sign :: "real \<Rightarrow> fl" where
  "inf_of_sign s = (if 0 < s then PInf else if s < 0 then NInf else NaN)"

fun fl_sgn :: "fl \<Rightarrow> real" where
  "fl_sgn (Fin x) = sgn x"
| "fl_sgn PInf = 1"
| "fl_sgn NInf = - 1"
| "fl_sgn NaN = 0"

fun fl_neg :: "fl \<Rightarrow> fl" where
  "fl_neg (Fin x) = Fin (- x)"
| "fl_neg PInf = NInf"
| "fl_neg NInf = PInf"
| "fl_neg NaN = NaN"

fun fl_abs :: "fl \<Rightarrow> fl" where
  "fl_abs (Fin x) = Fin \<bar>x\<bar>"
| "fl_abs PInf = PInf"
| "fl_abs NInf = PInf"
| "fl_abs NaN = NaN"

fun fl_add :: "fl \<Rightarrow> fl \<Rightarrow> fl" where
  "fl_add (Fin x) (Fin y) = Fin (x + y)"
| "fl_add NaN _ = NaN"
| "fl_add _ NaN = NaN"
| "fl_add PInf NInf = NaN"
| "fl_add NInf PInf = NaN"
| "fl_add PInf _ = PInf"
| "fl_add _ PInf = PInf"
| "fl_add NInf _ = NInf"
| "fl_add _ NInf = NInf"

definition fl_sub :: "fl \<Rightarrow> fl \<Rightarrow> fl" where
  "fl_sub a b = fl_add a (fl_neg b)"

fun fl_mul :: "fl \<Rightarrow> fl \<Rightarrow> fl" where
  "fl_mul (Fin x) (Fin y) = Fin (x * y)"
| "fl_mul NaN _ = NaN"
| "fl_mul _ NaN = NaN"
| "fl_mul a b = inf_of_sign (fl_sgn a * fl_sgn b)"

text \<open>
  Division as numpy does it: dividing by zero raises nothing and gives an infinity
  (or NaN for \<open>0 / 0\<close>).
\<close>

fun np_div :: "fl \<Rightarrow> fl \<Rightarrow> fl" where
  "np_div NaN _ = NaN"
| "np_div _ NaN = NaN"
| "np_div (Fin x) (Fin y) = (if y = 0 then inf_of_sign (sgn x) else Fin (x / y))"
| "np_div (Fin x) _ = Fin 0"
| "np_div a (Fin y) = inf_of_sign (fl_sgn a * (if y < 0 then - 1 else 1))"
| "np_div _ _ = NaN"

text \<open>
  Python's builtin \<open>max(a, b)\<close> keeps the first argument unless the second compares
  greater, so a NaN second argument is ignored and a NaN first argument is kept.
\<close>

definition py_max :: "fl \<Rightarrow> fl \<Rightarrow> fl" where
  "py_max a b = (if fl_gt b a then b else a)"

text \<open>
  Python's \<open>round(x, 2)\<close>: to two decimals, ties to even; NaN and the infinities are
  returned unchanged.
\<close>

definition round_half_even :: "real \<Rightarrow> int" where
  "round_half_even x =
     (let f = \<lfloor>x\<rfloor>; d = x - of_int f
      in if d < 1 / 2 then f else if 1 / 2 < d then f + 1
         else if even f then f else f + 1)"

fun py_round2 :: "fl \<Rightarrow> fl" where
  "py_round2 (Fin x) = Fin (of_int (round_half_even (x * 100)) / 100)"
| "py_round2 v = v"

subsection \<open>Rounding to double precision\<close>

text \<open>
  IEEE 754 binary64, round to nearest, ties to even. A double is \<open>m * 2^(k - 52)\<close> with
  an integer significand \<open>m\<close> of magnitude below \<open>2^53\<close> and an exponent \<open>k\<close> from \<open>-1022\<close>
  to \<open>1023\<close>. \<open>expo x\<close> is the exponent of the binade of \<open>x\<close>, held at \<open>-1022\<close> for the
  subnormal numbers; \<open>dbl x\<close> rounds \<open>x\<close> to the nearest multiple of \<open>2^(expo x - 52)\<close>;
  \<open>fl_rnd\<close> adds the overflow to an infinity when the rounded magnitude reaches \<open>2^1024\<close>.
\<close>

definition pow2 :: "int \<Rightarrow> real" where
  "pow2 k = 2 powr of_int k"

definition expo :: "real \<Rightarrow> int" where
  "expo x = max \<lfloor>log 2 \<bar>x\<bar>\<rfloor> (- 1022)"

definition dbl :: "real \<Rightarrow> real" where
  "dbl x =
     (if x = 0 then 0
      else let q = pow2 (expo x - 52)
           in of_int (round_half_even (x / q)) * q)"

definition fl_rnd :: "fl \<Rightarrow> fl" where
  "fl_rnd v =
     (case v of
        Fin x \<Rightarrow>
          (let r = dbl x
           in if pow2 1024 \<le> r then PInf else if r \<le> - pow2 1024 then NInf else Fin r)
      | _ \<Rightarrow> v)"

section \<open>Errors\<close>

text \<open>The exceptions the modelled code can raise.\<close>

datatype error = KeyError string | ZeroDivisionError | TypeError

text \<open>
  Division of Python floats (values passed through \<open>float(...)\<close>): a zero divisor
  raises \<open>ZeroDivisionError\<close>, whatever the dividend.
\<close>

definition py_div :: "fl \<Rightarrow> fl \<Rightarrow> error + fl" where
  "py_div a b = (if b = Fin 0 then Inl ZeroDivisionError else Inr (np_div a b))"

section \<open>Configuration\<close>

text \<open>The module-level defaults of \<open>config.py\<close>.\<close>

definition MIN_PRICE :: fl where "MIN_PRICE = Fin 100"
definition MIN_AVG_TXN_VALUE :: fl where "MIN_AVG_TXN_VALUE = Fin 1000000"
definition VOLUME_SMA_WINDOW :: nat where "VOLUME_SMA_WINDOW = 10"
definition RVOL_THRESHOLD :: fl where "RVOL_THRESHOLD = Fin 4"
definition PRICE_POSITION_MIN :: fl where "PRICE_POSITION_MIN = Fin (1 / 2)"
definition RETRACE_PCT :: fl where "RETRACE_PCT = Fin 3"
definition MFI_MIN :: fl where "MFI_MIN = Fin 20"
definition SL_PCT :: fl where "SL_PCT = Fin 5"
definition TRAILING_STOP_PCT :: fl where "TRAILING_STOP_PCT = Fin (5 / 2)"
definition TP_MODE :: int where "TP_MODE = 2"

section \<open>Bars and the spike detector\<close>

text \<open>
  A daily OHLCV frame is the list of its rows in index order, each row the index label
  (a timestamp, modelled as an integer) and the bar. Prices are finite numbers, the
  volume an integer; nothing in the code restricts their sign.
\<close>

type_synonym timestamp = int

record bar =
  Open :: real
  High :: real
  Low :: real
  Close :: real
  Volume :: int

type_synonym frame = "(timestamp \<times> bar) list"

record SpikeEvent =
  ticker :: string
  date :: timestamp
  rvol :: fl
  close :: fl
  prev_close :: fl
  pct_change :: fl
  high :: fl
  low :: fl
  volume :: int
  avg_txn_value :: fl

text \<open>
  \<open>Series.rolling(window).mean()\<close> and \<open>.sum()\<close> on a series of finite values: NaN
  until \<open>window\<close> values are available, then the mean (sum) of the last \<open>window\<close>.
\<close>

definition rolling_sum :: "nat \<Rightarrow> real list \<Rightarrow> fl list" where
  "rolling_sum w xs =
     map (\<lambda>t. if w = 0 \<or> t + 1 < w then NaN
               else Fin (sum_list (take w (drop (t + 1 - w) xs))))
         [0..<length xs]"

definition rolling_mean :: "nat \<Rightarrow> real list \<Rightarrow> fl list" where
  "rolling_mean w xs =
     map (\<lambda>t. if w = 0 \<or> t + 1 < w then NaN
               else Fin (sum_list (take w (drop (t + 1 - w) xs)) / real w))
         [0..<length xs]"

text \<open>\<open>.replace([np.inf, -np.inf], np.nan)\<close> on one value.\<close>

definition replace_inf :: "fl \<Rightarrow> fl" where
  "replace_inf v = (if isinf v then NaN else v)"

text \<open>\<open>Series.shift(1)\<close>: NaN first, then the values one row later.\<close>

definition shift :: "fl list \<Rightarrow> fl list" where
  "shift xs = take (length xs) (NaN # xs)"

definition compute_rvol :: "int list \<Rightarrow> nat \<Rightarrow> fl list" where
  "compute_rvol vol window =
     map2 (\<lambda>v sma. replace_inf (np_div (Fin (real_of_int v)) sma))
          vol (rolling_mean window (map real_of_int vol))"

definition compute_avg_txn_value :: "bar list \<Rightarrow> nat \<Rightarrow> fl list" where
  "compute_avg_txn_value df window =
     rolling_mean window (map (\<lambda>b. real_of_int (Volume b) * Close b) df)"

definition price_position :: "bar list \<Rightarrow> fl list" where
  "price_position df =
     map (\<lambda>b. replace_inf (np_div (Fin (Close b - Low b)) (Fin (High b - Low b)))) df"

text \<open>
  The working copy of the frame inside \<open>detect_spikes\<close>: each row with the four added
  columns \<open>rvol\<close>, \<open>avg_txn\<close>, \<open>price_pos\<close> and \<open>prev_close\<close>.
\<close>

record srow =
  s_date :: timestamp
  s_bar :: bar
  s_rvol :: fl
  s_avg_txn :: fl
  s_price_pos :: fl
  s_prev_close :: fl

definition scan_row :: "frame \<Rightarrow> nat \<Rightarrow> srow" where
  "scan_row df i =
     \<lparr> s_date = fst (df ! i), s_bar = snd (df ! i),
       s_rvol = compute_rvol (map (Volume \<circ> snd) df) VOLUME_SMA_WINDOW ! i,
       s_avg_txn = compute_avg_txn_value (map snd df) VOLUME_SMA_WINDOW ! i,
       s_price_pos = price_position (map snd df) ! i,
       s_prev_close = shift (map (Fin \<circ> Close \<circ> snd) df) ! i \<rparr>"

definition scan_table :: "frame \<Rightarrow> srow list" where
  "scan_table df = map (scan_row df) [0..<length df]"

definition spike_mask :: "fl \<Rightarrow> fl \<Rightarrow> fl \<Rightarrow> fl \<Rightarrow> srow \<Rightarrow> bool" where
  "spike_mask rvol_threshold min_price min_avg_txn price_pos_min r =
     (fl_ge (Fin (Close (s_bar r))) min_price
      \<and> fl_ge (s_avg_txn r) min_avg_txn
      \<and> fl_ge (s_rvol r) rvol_threshold
      \<and> Open (s_bar r) < Close (s_bar r)
      \<and> fl_ge (s_price_pos r) price_pos_min
      \<and> fl_gt (Fin (Close (s_bar r))) (s_prev_close r))"

text \<open>
  \<open>df.loc[idx_label]\<close>: the row with that label. A label carried by several rows selects
  a sub-frame instead of a row, and the \<open>float(...)\<close> conversions that follow raise
  \<open>TypeError\<close>.
\<close>

definition df_loc :: "srow list \<Rightarrow> timestamp \<Rightarrow> error + srow" where
  "df_loc tbl label =
     (case filter (\<lambda>r. s_date r = label) tbl of
        [r] \<Rightarrow> Inr r
      | _ \<Rightarrow> Inl TypeError)"

text \<open>The \<open>SpikeEvent(...)\<close> built from one row; \<open>pct_change\<close> divides Python floats.\<close>

definition spike_event_of :: "string \<Rightarrow> timestamp \<Rightarrow> srow \<Rightarrow> error + SpikeEvent" where
  "spike_event_of tk idx_label row =
     (case py_div (fl_sub (Fin (Close (s_bar row))) (s_prev_close row)) (s_prev_close row) of
        Inl e \<Rightarrow> Inl e
      | Inr q \<Rightarrow>
          Inr \<lparr> ticker = tk, date = idx_label,
                rvol = py_round2 (s_rvol row),
                close = Fin (Close (s_bar row)),
                prev_close = s_prev_close row,
                pct_change = py_round2 (fl_mul q (Fin 100)),
                high = Fin (High (s_bar row)),
                low = Fin (Low (s_bar row)),
                volume = Volume (s_bar row),
                avg_txn_value = s_avg_txn row \<rparr>)"

text \<open>The loop over the selected labels; the first exception ends it.\<close>

fun collect_events :: "string \<Rightarrow> srow list \<Rightarrow> timestamp list \<Rightarrow> error + SpikeEvent list" where
  "collect_events tk tbl [] = Inr []"
| "collect_events tk tbl (l # ls) =
     (case df_loc tbl l of
        Inl e \<Rightarrow> Inl e
      | Inr row \<Rightarrow>
          (case spike_event_of tk l row of
             Inl e \<Rightarrow> Inl e
           | Inr ev \<Rightarrow>
               (case collect_events tk tbl ls of
                  Inl e \<Rightarrow> Inl e
                | Inr evs \<Rightarrow> Inr (ev # evs))))"

definition detect_spikes ::
  "frame \<Rightarrow> string \<Rightarrow> fl \<Rightarrow> fl \<Rightarrow> fl \<Rightarrow> fl \<Rightarrow> error + SpikeEvent list" where
  "detect_spikes df tk rvol_threshold min_price min_avg_txn price_pos_min =
     (if df = [] \<or> length df < VOLUME_SMA_WINDOW + 1 then Inr []
      else
        let tbl = scan_table df;
            labels = map s_date
                       (filter (spike_mask rvol_threshold min_price min_avg_txn price_pos_min) tbl)
        in collect_events tk tbl labels)"

section \<open>Stop-loss on entry\<close>

text \<open>
  \<open>_adaptive_sl(pre_spike_close, atr, sl_pct, entry_price)\<close> of
  \<open>signal_generator.py\<close>; \<open>entry_price\<close> is optional (\<open>None\<close> by default). Every
  operation of the source is a double operation: its exact result is rounded
  (\<open>pre_spike_close * sl_pct\<close>, then \<open>/ 100\<close>; the subtraction; \<open>sl_pct / 100\<close>, then
  \<open>1 - ...\<close>, then the product with \<open>entry_price\<close>). The integer constants 1 and 100
  are doubles.
\<close>

definition adaptive_sl :: "fl \<Rightarrow> fl \<Rightarrow> fl \<Rightarrow> fl option \<Rightarrow> fl" where
  "adaptive_sl pre_spike_close atr sl_pct entry_price =
     (let pct_dist = fl_rnd (np_div (fl_rnd (fl_mul pre_spike_close sl_pct)) (Fin 100));
          sl = fl_rnd (fl_sub pre_spike_close (py_max pct_dist atr))
      in case entry_price of
           None \<Rightarrow> sl
         | Some e \<Rightarrow>
             if fl_ge sl e
             then fl_rnd (fl_mul e (fl_rnd (fl_sub (Fin 1) (fl_rnd (np_div sl_pct (Fin 100))))))
             else sl)"

section \<open>Enriched frames, signals and positions\<close>

text \<open>
  A row of an enriched frame is looked up by column name, so it is a map from column
  names to values: \<open>row["k"]\<close> raises \<open>KeyError\<close> on a missing column and
  \<open>row.get("k", d)\<close> gives \<open>d\<close>.
\<close>

type_synonym row = "string \<rightharpoonup> fl"

type_synonym eframe = "(timestamp \<times> row) list"

definition row_item :: "row \<Rightarrow> string \<Rightarrow> error + fl" where
  "row_item r k = (case r k of None \<Rightarrow> Inl (KeyError k) | Some v \<Rightarrow> Inr v)"

definition row_get :: "row \<Rightarrow> string \<Rightarrow> fl \<Rightarrow> fl" where
  "row_get r k d = (case r k of None \<Rightarrow> d | Some v \<Rightarrow> v)"

text \<open>
  \<open>enrich(df, ema_period)\<close> copies the frame and adds the columns \<open>EMA\<close>, \<open>ATR\<close>,
  \<open>MFI\<close> and \<open>prev_EMA\<close>. The three indicators come from the external \<open>ta\<close>
  package; they are parameters here, each giving one value per row. No column
  \<open>prev_close\<close> is added.
\<close>

definition enrich ::
  "(real list \<Rightarrow> fl list) \<Rightarrow> (bar list \<Rightarrow> fl list) \<Rightarrow> (bar list \<Rightarrow> fl list) \<Rightarrow> frame \<Rightarrow> eframe" where
  "enrich ema_indicator average_true_range money_flow_index df =
     (let bars = map snd df;
          ema = ema_indicator (map Close bars);
          atr = average_true_range bars;
          mfi = money_flow_index bars;
          prev_ema = shift ema
      in map (\<lambda>i. (fst (df ! i),
                    [''Open'' \<mapsto> Fin (Open (bars ! i)),
                     ''High'' \<mapsto> Fin (High (bars ! i)),
                     ''Low'' \<mapsto> Fin (Low (bars ! i)),
                     ''Close'' \<mapsto> Fin (Close (bars ! i)),
                     ''Volume'' \<mapsto> Fin (real_of_int (Volume (bars ! i))),
                     ''EMA'' \<mapsto> ema ! i,
                     ''ATR'' \<mapsto> atr ! i,
                     ''MFI'' \<mapsto> mfi ! i,
                     ''prev_EMA'' \<mapsto> prev_ema ! i]))
             [0..<length df])"

datatype SignalType = ENTRY | TAKE_PROFIT | STOP_LOSS

text \<open>The members of the integer enumeration \<open>TPMode\<close>.\<close>

definition BREAKOUT :: int where "BREAKOUT = 1"
definition MA_BREAKDOWN :: int where "MA_BREAKDOWN = 2"
definition TRAILING :: int where "TRAILING = 3"

text \<open>
  \<open>Signal\<close> without its \<open>note\<close>, a formatted text for the reader of the alert that
  no decision depends on.
\<close>

record Signal =
  sig_ticker :: string
  signal_type :: SignalType
  sig_date :: timestamp
  price :: fl
  sig_spike_event :: SpikeEvent
  sig_entry_price :: "fl option"
  sig_sl_price :: "fl option"
  sig_tp_price :: "fl option"

record ActivePosition =
  pos_ticker :: string
  entry_date :: timestamp
  entry_price :: fl
  spike_event :: SpikeEvent
  sl_price :: fl
  tp_price :: "fl option"
  highest_since_entry :: fl

section \<open>Entry and exit checks\<close>

text \<open>\<open>_is_near_entry\<close>, \<open>_ema_reclaim\<close>, \<open>check_entry\<close> and \<open>check_exit\<close>.\<close>

definition is_near_entry :: "fl \<Rightarrow> fl \<Rightarrow> fl \<Rightarrow> bool" where
  "is_near_entry current_close pre_spike_close retrace_pct =
     (if fl_le pre_spike_close (Fin 0) then False
      else
        let distance_pct =
              fl_mul (np_div (fl_abs (fl_sub current_close pre_spike_close)) pre_spike_close)
                     (Fin 100)
        in fl_le distance_pct retrace_pct)"

text \<open>
  The three operands of \<open>and\<close> are evaluated left to right and only as far as needed;
  the defaults given to \<open>row.get\<close> are evaluated before the lookup.
\<close>

definition ema_reclaim :: "row \<Rightarrow> error + bool" where
  "ema_reclaim r =
     (if isnan (row_get r ''prev_EMA'' NaN) then Inr False
      else
        case row_item r ''Close'' of
          Inl e \<Rightarrow> Inl e
        | Inr c \<Rightarrow>
            (case row_item r ''EMA'' of
               Inl e \<Rightarrow> Inl e
             | Inr ema \<Rightarrow>
                 if \<not> fl_gt c ema then Inr False
                 else Inr (fl_le (row_get r ''prev_close'' c) (row_get r ''prev_EMA'' ema))))"

definition check_entry :: "eframe \<Rightarrow> SpikeEvent \<Rightarrow> fl \<Rightarrow> fl \<Rightarrow> error + Signal option" where
  "check_entry df spike retrace_pct mfi_min =
     (if df = [] then Inr None
      else
        let latest = snd (last df); dt = fst (last df)
        in if dt \<le> date spike then Inr None
           else
             case row_item latest ''Close'' of
               Inl e \<Rightarrow> Inl e
             | Inr c \<Rightarrow>
                 let near = is_near_entry c (prev_close spike) retrace_pct
                 in case ema_reclaim latest of
                      Inl e \<Rightarrow> Inl e
                    | Inr reclaim \<Rightarrow>
                        let mfi_ok = fl_ge (row_get latest ''MFI'' (Fin 0)) mfi_min
                        in if near \<and> reclaim \<and> mfi_ok then
                             let atr = row_get latest ''ATR'' (Fin 0);
                                 sl = adaptive_sl (prev_close spike) atr SL_PCT (Some c);
                                 tp = high spike
                             in Inr (Some \<lparr> sig_ticker = ticker spike,
                                            signal_type = ENTRY,
                                            sig_date = dt,
                                            price = c,
                                            sig_spike_event = spike,
                                            sig_entry_price = Some c,
                                            sig_sl_price = Some (py_round2 sl),
                                            sig_tp_price = Some (py_round2 tp) \<rparr>)
                           else Inr None)"

text \<open>
  \<open>check_exit\<close> may assign \<open>pos.highest_since_entry\<close>; the position after the call is
  the second component of the result, also when the call raises.
\<close>

definition exit_signal ::
  "ActivePosition \<Rightarrow> SignalType \<Rightarrow> timestamp \<Rightarrow> fl \<Rightarrow> fl option \<Rightarrow> fl option \<Rightarrow> Signal" where
  "exit_signal pos kind dt c sl tp =
     \<lparr> sig_ticker = pos_ticker pos, signal_type = kind, sig_date = dt, price = c,
       sig_spike_event = spike_event pos, sig_entry_price = Some (entry_price pos),
       sig_sl_price = sl, sig_tp_price = tp \<rparr>"

definition check_exit ::
  "eframe \<Rightarrow> ActivePosition \<Rightarrow> int \<Rightarrow> fl \<Rightarrow> (error + Signal option) \<times> ActivePosition" where
  "check_exit df pos tp_mode trailing_pct =
     (if df = [] then (Inr None, pos)
      else
        let latest = snd (last df); dt = fst (last df)
        in case row_item latest ''Close'' of
             Inl e \<Rightarrow> (Inl e, pos)
           | Inr c \<Rightarrow>
               if fl_le c (sl_price pos) then
                 (Inr (Some (exit_signal pos STOP_LOSS dt c (Some (sl_price pos)) None)), pos)
               else if tp_mode = BREAKOUT then
                 (if fl_gt c (high (spike_event pos)) then
                    (Inr (Some (exit_signal pos TAKE_PROFIT dt c None
                                  (Some (high (spike_event pos))))), pos)
                  else (Inr None, pos))
               else if tp_mode = MA_BREAKDOWN then
                 (let in_profit = fl_gt c (entry_price pos);
                      below_ema = fl_lt c (row_get latest ''EMA'' (fl_add c (Fin 1)))
                  in if in_profit \<and> below_ema then
                       (Inr (Some (exit_signal pos TAKE_PROFIT dt c None None)), pos)
                     else (Inr None, pos))
               else if tp_mode = TRAILING then
                 (let pos' = pos\<lparr>highest_since_entry := py_max (highest_since_entry pos) c\<rparr>;
                      trail_price = fl_mul (highest_since_entry pos')
                                      (fl_sub (Fin 1) (np_div trailing_pct (Fin 100)));
                      in_profit = fl_gt c (entry_price pos')
                  in if in_profit \<and> fl_lt c trail_price then
                       (Inr (Some (exit_signal pos' TAKE_PROFIT dt c None None)), pos')
                     else (Inr None, pos'))
               else (Inr None, pos))"

section \<open>The six spike filters\<close>

text \<open>
  The six filters of the spike detector as the specification lists them, for the bar at
  position \<open>i\<close> of a frame: minimum price, average transaction value, relative volume,
  green candle, price position, and a close above the previous bar's close.
\<close>

definition f_min_price :: "frame \<Rightarrow> fl \<Rightarrow> nat \<Rightarrow> bool" where
  "f_min_price df min_price i = fl_ge (Fin (Close (snd (df ! i)))) min_price"
definition f_avg_txn :: "frame \<Rightarrow> fl \<Rightarrow> nat \<Rightarrow> bool" where
  "f_avg_txn df min_avg_txn i =
     fl_ge (compute_avg_txn_value (map snd df) VOLUME_SMA_WINDOW ! i) min_avg_txn"
definition f_rvol :: "frame \<Rightarrow> fl \<Rightarrow> nat \<Rightarrow> bool" where
  "f_rvol df rvol_threshold i =
     fl_ge (compute_rvol (map (Volume \<circ> snd) df) VOLUME_SMA_WINDOW ! i) rvol_threshold"
definition f_green :: "frame \<Rightarrow> nat \<Rightarrow> bool" where
  "f_green df i = (Open (snd (df ! i)) < Close (snd (df ! i)))"
definition f_price_pos :: "frame \<Rightarrow> fl \<Rightarrow> nat \<Rightarrow> bool" where
  "f_price_pos df price_pos_min i = fl_ge (price_position (map snd df) ! i) price_pos_min"
definition f_rising :: "frame \<Rightarrow> nat \<Rightarrow> bool" where
  "f_rising df i = (0 < i \<and> Close (snd (df ! (i - 1))) < Close (snd (df ! i)))"

definition six_filters :: "frame \<Rightarrow> fl \<Rightarrow> fl \<Rightarrow> fl \<Rightarrow> fl \<Rightarrow> nat \<Rightarrow> bool" where
  "six_filters df thr minp mina ppm i =
     (f_min_price df minp i \<and> f_avg_txn df mina i \<and> f_rvol df thr i \<and> f_green df i
      \<and> f_price_pos df ppm i \<and> f_rising df i)"

section \<open>Example data\<close>

text \<open>Frames, events and positions on which the results below are evaluated.\<close>

definition flat_bar :: bar where
  "flat_bar = \<lparr>Open = 1000, High = 1000, Low = 1000, Close = 1000, Volume = 10000\<rparr>"

definition surge_bar :: bar where
  "surge_bar = \<lparr>Open = 1000, High = 1100, Low = 1000, Close = 1100, Volume = 100000\<rparr>"

definition zero_bar :: bar where
  "zero_bar = \<lparr>Open = 1000, High = 1000, Low = 0, Close = 0, Volume = 10000\<rparr>"

text \<open>Ten quiet days, then a day with ten times the volume closing 10 percent higher.\<close>

definition surge_frame :: frame where
  "surge_frame =
     [(0, flat_bar), (1, flat_bar), (2, flat_bar), (3, flat_bar), (4, flat_bar),
      (5, flat_bar), (6, flat_bar), (7, flat_bar), (8, flat_bar), (9, flat_bar),
      (10, surge_bar)]"

definition surge_event :: SpikeEvent where
  "surge_event =
     \<lparr> ticker = ''BBCA'', date = 10, rvol = Fin (263 / 50), close = Fin 1100,
       prev_close = Fin 1000, pct_change = Fin 10, high = Fin 1100, low = Fin 1000,
       volume = 100000, avg_txn_value = Fin 20000000 \<rparr>"

text \<open>
  Sixteen quiet days with a daily range of 20 around 1000, then the same surge day: a
  frame long enough for the indicators of the backtest to be past their first values.
\<close>

definition calm_bar :: bar where
  "calm_bar = \<lparr>Open = 1000, High = 1010, Low = 990, Close = 1000, Volume = 10000\<rparr>"

definition long_surge_frame :: frame where
  "long_surge_frame = map (\<lambda>i. (int i, calm_bar)) [0..<16] @ [(16, surge_bar)]"

definition long_surge_event :: SpikeEvent where
  "long_surge_event = surge_event\<lparr>date := 16\<rparr>"

text \<open>The same, but the day before the surge closed at zero.\<close>

definition zero_close_frame :: frame where
  "zero_close_frame =
     [(0, flat_bar), (1, flat_bar), (2, flat_bar), (3, flat_bar), (4, flat_bar),
      (5, flat_bar), (6, flat_bar), (7, flat_bar), (8, flat_bar), (9, zero_bar),
      (10, surge_bar)]"

text \<open>
  An event and an open position with the figures of the specification's examples:
  pre-spike close 9100, stop-loss 8645, entry at 9000. The position's
  \<open>highest_since_entry\<close> is the argument; \<open>0\<close> is the default of the data class.
\<close>

definition held_spike :: SpikeEvent where
  "held_spike =
     \<lparr> ticker = ''BBCA'', date = 5, rvol = Fin 6, close = Fin 9450,
       prev_close = Fin 9100, pct_change = Fin (385 / 100), high = Fin 9500, low = Fin 9100,
       volume = 6000000, avg_txn_value = Fin 9450000000 \<rparr>"

definition held_position :: "fl \<Rightarrow> fl \<Rightarrow> ActivePosition" where
  "held_position sl h =
     \<lparr> pos_ticker = ''BBCA'', entry_date = 12, entry_price = Fin 9000,
       spike_event = held_spike, sl_price = sl, tp_price = Some (Fin 9500),
       highest_since_entry = h \<rparr>"

text \<open>An enriched frame reduced to its latest row, with the columns the exit check reads.\<close>

definition latest_only :: "real \<Rightarrow> fl \<Rightarrow> eframe" where
  "latest_only c ema = [(20, [''Close'' \<mapsto> Fin c, ''EMA'' \<mapsto> ema])]"

section \<open>Observations on the result of an exit check\<close>





section \<open>The entry rule of the specification\<close>

text \<open>
  The entry rule in the specification's words, for comparison with \<open>check_entry\<close>: the
  spike is dated strictly before the latest bar, the close is within \<open>retracePct\<close>
  percent of the pre-spike close, the close is above the EMA on the latest bar while the
  previous bar's close was at or below the previous bar's EMA, and the MFI is at least
  \<open>mfiMin\<close>.
\<close>

definition spec_entry_rule :: "eframe \<Rightarrow> SpikeEvent \<Rightarrow> fl \<Rightarrow> fl \<Rightarrow> bool" where
  "spec_entry_rule df spike retrace_pct mfi_min =
     (2 \<le> length df
      \<and> date spike < fst (last df)
      \<and> (let cur = snd (last df); prv = snd (df ! (length df - 2));
              c = row_get cur ''Close'' NaN; p = prev_close spike
          in fl_le (fl_mul (np_div (fl_abs (fl_sub c p)) p) (Fin 100)) retrace_pct
             \<and> fl_gt c (row_get cur ''EMA'' NaN)
             \<and> fl_le (row_get prv ''Close'' NaN) (row_get prv ''EMA'' NaN)
             \<and> fl_ge (row_get cur ''MFI'' NaN) mfi_min))"

text \<open>
  Eleven days closing at 100 (nine times), 90 and 110, enriched with the 10-day EMA of
  these closes (smoothing \<open>2/11\<close>, first value at the tenth row), an ATR of 5 and an MFI of
  50; and a spike of day 5 whose pre-spike close is 110. The close crosses the EMA on the
  last day: 90 is below 1080/11 and 110 is above 12140/121.
\<close>

definition priced_bar :: "real \<Rightarrow> bar" where
  "priced_bar c = \<lparr>Open = c, High = c, Low = c, Close = c, Volume = 10000\<rparr>"

definition crossing_raw :: frame where
  "crossing_raw =
     [(0, priced_bar 100), (1, priced_bar 100), (2, priced_bar 100), (3, priced_bar 100),
      (4, priced_bar 100), (5, priced_bar 100), (6, priced_bar 100), (7, priced_bar 100),
      (8, priced_bar 100), (9, priced_bar 90), (10, priced_bar 110)]"

definition crossing_ema :: "fl list" where
  "crossing_ema =
     [NaN, NaN, NaN, NaN, NaN, NaN, NaN, NaN, NaN, Fin (1080 / 11), Fin (12140 / 121)]"

definition crossing_frame :: eframe where
  "crossing_frame =
     enrich (\<lambda>_. crossing_ema) (\<lambda>_. replicate 11 (Fin 5)) (\<lambda>_. replicate 11 (Fin 50))
       crossing_raw"

definition crossing_spike :: SpikeEvent where
  "crossing_spike =
     \<lparr> ticker = ''BBCA'', date = 5, rvol = Fin 6, close = Fin 125,
       prev_close = Fin 110, pct_change = Fin (1364 / 100), high = Fin 130, low = Fin 110,
       volume = 6000000, avg_txn_value = Fin 9450000000 \<rparr>"

section \<open>The backtest strategy\<close>

text \<open>
  The indicator helpers that the strategy of \<open>backtest/strategy.py\<close> uses (\<open>_ema\<close>,
  \<open>_atr\<close>, \<open>_mfi\<close>, \<open>_rvol\<close>, \<open>_price_position\<close>; named here with the prefix
  \<open>bt\<close>) on columns of finite values.
\<close>

text \<open>
  \<open>Series.ewm(span=window, adjust=False).mean()\<close>: the first value as it is, then
  \<open>y' = (1 - alpha) * y + alpha * x\<close> with \<open>alpha = 2 / (span + 1)\<close>.
\<close>

fun ewm_mean :: "real \<Rightarrow> real \<Rightarrow> real list \<Rightarrow> real list" where
  "ewm_mean alpha y [] = []"
| "ewm_mean alpha y (x # xs) =
     (let y' = (1 - alpha) * y + alpha * x in y' # ewm_mean alpha y' xs)"

definition bt_ema :: "real list \<Rightarrow> nat \<Rightarrow> fl list" where
  "bt_ema arr window =
     (case arr of
        [] \<Rightarrow> []
      | x # xs \<Rightarrow> map Fin (x # ewm_mean (2 / (real window + 1)) x xs))"

text \<open>
  The true range: the row-wise maximum of \<open>h - l\<close>, \<open>|h - prev_c|\<close> and
  \<open>|l - prev_c|\<close>, which skips the two NaN entries of the first row.
\<close>

definition true_range :: "bar list \<Rightarrow> nat \<Rightarrow> real" where
  "true_range bars t =
     (let h = High (bars ! t); l = Low (bars ! t)
      in if t = 0 then h - l
         else let prev_c = Close (bars ! (t - 1))
              in max (h - l) (max \<bar>h - prev_c\<bar> \<bar>l - prev_c\<bar>))"

definition bt_atr :: "bar list \<Rightarrow> nat \<Rightarrow> fl list" where
  "bt_atr bars window = rolling_mean window (map (true_range bars) [0..<length bars])"

text \<open>
  \<open>_mfi\<close>: the money flow of a bar counts as positive when the typical price rose and
  as negative when it did not; on the first row the difference is NaN and both are 0.
  A zero negative sum is replaced by NaN before the division.
\<close>

definition typical_price :: "bar \<Rightarrow> real" where
  "typical_price b = (High b + Low b + Close b) / 3"

definition money_flow :: "bar \<Rightarrow> real" where
  "money_flow b = typical_price b * real_of_int (Volume b)"

definition pos_flow :: "bar list \<Rightarrow> nat \<Rightarrow> real" where
  "pos_flow bars t =
     (if 0 < t \<and> 0 < typical_price (bars ! t) - typical_price (bars ! (t - 1))
      then money_flow (bars ! t) else 0)"

definition neg_flow :: "bar list \<Rightarrow> nat \<Rightarrow> real" where
  "neg_flow bars t =
     (if 0 < t \<and> typical_price (bars ! t) - typical_price (bars ! (t - 1)) \<le> 0
      then money_flow (bars ! t) else 0)"

definition replace_zero :: "fl \<Rightarrow> fl" where
  "replace_zero v = (if v = Fin 0 then NaN else v)"

definition mfi_of :: "fl \<Rightarrow> fl \<Rightarrow> fl" where
  "mfi_of pos_mf neg_mf =
     (let ratio = np_div pos_mf (replace_zero neg_mf)
      in fl_sub (Fin 100) (np_div (Fin 100) (fl_add (Fin 1) ratio)))"

definition bt_mfi :: "bar list \<Rightarrow> nat \<Rightarrow> fl list" where
  "bt_mfi bars window =
     map2 mfi_of
       (rolling_sum window (map (pos_flow bars) [0..<length bars]))
       (rolling_sum window (map (neg_flow bars) [0..<length bars]))"

definition bt_rvol :: "int list \<Rightarrow> nat \<Rightarrow> fl list" where
  "bt_rvol vol window =
     map2 (\<lambda>s avg. replace_inf (np_div (Fin (real_of_int s)) avg))
          vol (rolling_mean window (map real_of_int vol))"

definition bt_price_position :: "bar list \<Rightarrow> fl list" where
  "bt_price_position bars =
     map (\<lambda>b. replace_inf (np_div (Fin (Close b - Low b)) (Fin (High b - Low b)))) bars"

text \<open>
  The strategy class: its tuneable parameters (fields prefixed with \<open>p\<close>), its own
  state (\<open>_spike_close\<close>, \<open>_pre_spike_close\<close>, \<open>_spike_high\<close>, \<open>_highest\<close>;
  fields prefixed with \<open>bt\<close>), and \<open>next\<close>. The
  \<open>backtesting\<close> package is external: whether a position is open and the entry price
  of the last trade are inputs of \<open>next\<close>, the orders it places are its output. \<open>next\<close>
  runs on bar \<open>i\<close> and sees the rows up to \<open>i\<close>.
\<close>

record params =
  p_rvol_threshold :: fl
  p_retrace_pct :: fl
  p_ema_period :: nat
  p_sl_pct :: fl
  p_tp_mode :: int
  p_trailing_pct :: fl
  p_mfi_min :: fl
  p_vol_window :: nat

record strategy_state =
  bt_spike_close :: fl
  bt_pre_spike_close :: fl
  bt_spike_high :: fl
  bt_highest :: fl

definition bt_init :: strategy_state where
  "bt_init = \<lparr>bt_spike_close = NaN, bt_pre_spike_close = NaN, bt_spike_high = NaN,
              bt_highest = Fin 0\<rparr>"

definition bt_reset :: "strategy_state \<Rightarrow> strategy_state" where
  "bt_reset s = s\<lparr>bt_spike_close := NaN, bt_pre_spike_close := NaN, bt_spike_high := NaN,
                  bt_highest := Fin 0\<rparr>"

datatype order = Buy fl | ClosePosition

definition bt_prev_close :: "frame \<Rightarrow> nat \<Rightarrow> fl" where
  "bt_prev_close df i =
     (if 1 < i + 1 then Fin (Close (snd (df ! (i - 1)))) else Fin (Close (snd (df ! i))))"

definition bt_new_spike :: "params \<Rightarrow> frame \<Rightarrow> nat \<Rightarrow> bool" where
  "bt_new_spike P df i =
     (let cl = Fin (Close (snd (df ! i)));
          prev_cl = bt_prev_close df i;
          is_green = (Open (snd (df ! i)) < Close (snd (df ! i)));
          rv = bt_rvol (map (Volume \<circ> snd) df) (p_vol_window P) ! i;
          pp = bt_price_position (map snd df) ! i
      in \<not> isnan rv \<and> fl_ge rv (p_rvol_threshold P) \<and> is_green \<and> fl_gt cl prev_cl
         \<and> (\<not> isnan pp \<and> fl_ge pp (Fin (1 / 2))))"

definition bt_next ::
  "params \<Rightarrow> frame \<Rightarrow> nat \<Rightarrow> bool \<Rightarrow> fl \<Rightarrow> strategy_state \<Rightarrow> strategy_state \<times> order list" where
  "bt_next P df i in_position trade_entry_price s =
     (let bars = map snd df;
          cl = Fin (Close (bars ! i));
          prev_cl = bt_prev_close df i;
          ema_line = bt_ema (map Close bars) (p_ema_period P);
          ema_val = ema_line ! i;
          prev_ema = (if 1 < i + 1 then ema_line ! (i - 1) else ema_val);
          mfi_val = bt_mfi bars 14 ! i;
          atr_val = bt_atr bars 14 ! i
      in if \<not> in_position then
           (let s1 = (if bt_new_spike P df i
                      then s\<lparr>bt_spike_close := cl, bt_pre_spike_close := prev_cl,
                             bt_spike_high := Fin (High (bars ! i))\<rparr>
                      else s);
                pre = bt_pre_spike_close s1
            in if \<not> isnan pre \<and> fl_gt pre (Fin 0) then
                 (let dist_pct = fl_mul (np_div (fl_abs (fl_sub cl pre)) pre) (Fin 100);
                      ema_reclaim = (fl_gt cl ema_val \<and> fl_le prev_cl prev_ema)
                  in if fl_le dist_pct (p_retrace_pct P) \<and> ema_reclaim
                        \<and> (\<not> isnan mfi_val \<and> fl_ge mfi_val (p_mfi_min P)) then
                       (let pct_dist = np_div (fl_mul pre (p_sl_pct P)) (Fin 100);
                            atr_safe = (if \<not> isnan atr_val then atr_val else Fin 0);
                            sl_dist = py_max pct_dist atr_safe;
                            sl0 = fl_sub pre sl_dist;
                            sl1 = (if fl_ge sl0 cl
                                   then fl_mul cl (fl_sub (Fin 1) (np_div (p_sl_pct P) (Fin 100)))
                                   else sl0)
                        in (s1\<lparr>bt_highest := cl\<rparr>, [Buy sl1]))
                     else (s1, []))
               else (s1, []))
         else
           (let s1 = s\<lparr>bt_highest := py_max (bt_highest s) cl\<rparr>
            in if p_tp_mode P = 1 then
                 (if fl_gt cl (bt_spike_high s1) then (bt_reset s1, [ClosePosition])
                  else (s1, []))
               else if p_tp_mode P = 2 then
                 (if fl_gt cl trade_entry_price \<and> fl_lt cl ema_val
                  then (bt_reset s1, [ClosePosition]) else (s1, []))
               else if p_tp_mode P = 3 then
                 (let trail = fl_mul (bt_highest s1)
                                (fl_sub (Fin 1) (np_div (p_trailing_pct P) (Fin 100)))
                  in if fl_gt cl trade_entry_price \<and> fl_lt cl trail
                     then (bt_reset s1, [ClosePosition]) else (s1, []))
               else (s1, [])))"

text \<open>
  The replay. \<open>Backtest.run\<close> of the \<open>backtesting\<close> package does not call \<open>next()\<close> on
  the first bars: it starts at one plus the largest, over the indicators declared in
  \<open>init()\<close>, of the position of the first value that is not NaN (numpy's
  \<open>isnan(...).argmin()\<close>, which is 0 for an indicator that is NaN throughout), and
  then calls \<open>next()\<close> on every bar in turn. \<open>bt_replay\<close> is the calls it makes from
  the initial state up to and including the first call that places an order: until
  then no position is open, and each call runs flat. It gives the bar and the
  strategy state after each call.
\<close>

definition first_valid :: "fl list \<Rightarrow> nat" where
  "first_valid xs = (if list_all isnan xs then 0 else length (takeWhile isnan xs))"

definition bt_start :: "params \<Rightarrow> frame \<Rightarrow> nat" where
  "bt_start P df =
     (let bars = map snd df
      in 1 + foldr max
               [first_valid (bt_rvol (map Volume bars) (p_vol_window P)),
                first_valid (bt_ema (map Close bars) (p_ema_period P)),
                first_valid (bt_atr bars 14),
                first_valid (bt_mfi bars 14),
                first_valid (bt_price_position bars)] 0)"

fun bt_flat_run ::
  "params \<Rightarrow> frame \<Rightarrow> nat list \<Rightarrow> strategy_state \<Rightarrow> (nat \<times> strategy_state) list" where
  "bt_flat_run P df [] s = []"
| "bt_flat_run P df (i # is) s =
     (let r = bt_next P df i False NaN s
      in (i, fst r) # (if snd r = [] then bt_flat_run P df is (fst r) else []))"

definition bt_replay :: "params \<Rightarrow> frame \<Rightarrow> (nat \<times> strategy_state) list" where
  "bt_replay P df = bt_flat_run P df [bt_start P df ..< length df] bt_init"



text \<open>
  Sixteen quiet days around 50, below the minimum price, then a surge to 55 on ten times
  the volume; and the strategy's default parameters.
\<close>

definition cheap_bar :: bar where
  "cheap_bar = \<lparr>Open = 50, High = 51, Low = 49, Close = 50, Volume = 10000\<rparr>"

definition cheap_surge_bar :: bar where
  "cheap_surge_bar = \<lparr>Open = 50, High = 55, Low = 50, Close = 55, Volume = 100000\<rparr>"

definition cheap_frame :: frame where
  "cheap_frame = map (\<lambda>i. (int i, cheap_bar)) [0..<16] @ [(16, cheap_surge_bar)]"

definition default_params :: params where
  "default_params =
     \<lparr>p_rvol_threshold = Fin 5, p_retrace_pct = Fin 3, p_ema_period = 10, p_sl_pct = Fin 3,
      p_tp_mode = 3, p_trailing_pct = Fin 3, p_mfi_min = Fin 20, p_vol_window = 20\<rparr>"

text \<open>The strategy's parameters with the live engine's window and threshold.\<close>

definition aligned_params :: params where
  "aligned_params = default_params\<lparr>p_vol_window := 10, p_rvol_threshold := Fin 4\<rparr>"

section \<open>Persistence of open positions\<close>

text \<open>
  \<open>_save_position\<close> and \<open>_remove_position\<close> of \<open>run_intraday.py\<close>, as far as the
  intraday scan needs them: which rows the table \<open>active_positions\<close> holds. The table
  is the list of its rows, each the primary key \<open>ticker\<close> and the other six columns;
  \<open>INSERT OR REPLACE\<close> drops the row with the same key and adds the new one. A row
  holds the values handed to SQLite, and \<open>spike_json\<close> the object handed to
  \<open>json.dumps\<close>, a list of keys and values; \<open>str(timestamp)\<close> belongs to pandas and
  is a parameter. What SQLite, \<open>json\<close> and pandas give back when a row is read again
  (\<open>_load_positions\<close>) is decided inside those libraries and is not modelled.
\<close>

datatype jval = JStr string | JNum fl | JInt int

type_synonym json = "(string \<times> jval) list"

record pos_row =
  c_entry_date :: string
  c_entry_price :: fl
  c_sl_price :: fl
  c_tp_price :: "fl option"
  c_spike_json :: json
  c_highest :: fl

type_synonym positions_table = "(string \<times> pos_row) list"

text \<open>The dictionary \<open>spike_dict\<close> that \<open>_save_position\<close> passes to \<open>json.dumps\<close>.\<close>

definition spike_dict :: "(timestamp \<Rightarrow> string) \<Rightarrow> SpikeEvent \<Rightarrow> json" where
  "spike_dict ts_str ev =
     [(''ticker'', JStr (ticker ev)),
      (''date'', JStr (ts_str (date ev))),
      (''rvol'', JNum (rvol ev)),
      (''close'', JNum (close ev)),
      (''prev_close'', JNum (prev_close ev)),
      (''pct_change'', JNum (pct_change ev)),
      (''high'', JNum (high ev)),
      (''low'', JNum (low ev)),
      (''volume'', JInt (volume ev)),
      (''avg_txn_value'', JNum (avg_txn_value ev))]"

definition save_position ::
  "(timestamp \<Rightarrow> string) \<Rightarrow> positions_table \<Rightarrow> ActivePosition \<Rightarrow> positions_table" where
  "save_position ts_str tbl pos =
     filter (\<lambda>r. fst r \<noteq> pos_ticker pos) tbl
     @ [(pos_ticker pos,
         \<lparr> c_entry_date = ts_str (entry_date pos),
           c_entry_price = entry_price pos,
           c_sl_price = sl_price pos,
           c_tp_price = tp_price pos,
           c_spike_json = spike_dict ts_str (spike_event pos),
           c_highest = highest_since_entry pos \<rparr>)]"

definition remove_position :: "positions_table \<Rightarrow> string \<Rightarrow> positions_table" where
  "remove_position tbl tk = filter (\<lambda>r. fst r \<noteq> tk) tbl"

text \<open>A text form of the days, for the examples.\<close>

definition sample_str :: "timestamp \<Rightarrow> string" where
  "sample_str d = (if d = 12 then ''2024-01-12 00:00:00'' else ''2024-01-05 00:00:00'')"

section \<open>The intraday scan\<close>

text \<open>
  The signal loop of \<open>main\<close> in \<open>run_intraday.py\<close>. Its state is the dictionary
  \<open>positions\<close> (loaded from the database at the start of the run), the two database
  tables, and the alerts handed to \<open>send_signal_alert\<close>, in order. \<open>enrich\<close> with
  its external indicators and \<open>str(timestamp)\<close> are parameters. An exception ends the
  run; the state reached is returned with it.
\<close>

record live_state =
  positions :: "string \<rightharpoonup> ActivePosition"
  active_positions :: positions_table
  sent_signals :: "(string \<times> string \<times> string \<times> fl) list"
  alerts :: "Signal list"

fun signal_name :: "SignalType \<Rightarrow> string" where
  "signal_name ENTRY = ''ENTRY''"
| "signal_name TAKE_PROFIT = ''TAKE_PROFIT''"
| "signal_name STOP_LOSS = ''STOP_LOSS''"

definition already_sent ::
  "(string \<times> string \<times> string \<times> fl) list \<Rightarrow> string \<Rightarrow> string \<Rightarrow> string \<Rightarrow> bool" where
  "already_sent sent tk kind d =
     list_ex (\<lambda>r. fst r = tk \<and> fst (snd r) = kind \<and> fst (snd (snd r)) = d) sent"

definition mark_sent ::
  "(timestamp \<Rightarrow> string) \<Rightarrow> (string \<times> string \<times> string \<times> fl) list \<Rightarrow> Signal
     \<Rightarrow> (string \<times> string \<times> string \<times> fl) list" where
  "mark_sent ts_str sent sg =
     sent @ [(sig_ticker sg, signal_name (signal_type sg), ts_str (sig_date sg), price sg)]"

text \<open>\<open>sig.sl_price or 0\<close>.\<close>

definition or_zero :: "fl option \<Rightarrow> fl" where
  "or_zero v = (case v of None \<Rightarrow> Fin 0 | Some x \<Rightarrow> if x = Fin 0 then Fin 0 else x)"

text \<open>The entry part of the loop body, for one monitored ticker and its enriched frame.\<close>

definition entry_step ::
  "(timestamp \<Rightarrow> string) \<Rightarrow> (string \<rightharpoonup> SpikeEvent) \<Rightarrow> live_state \<Rightarrow> string \<Rightarrow> eframe
     \<Rightarrow> live_state \<times> error option" where
  "entry_step ts_str spikes_by_ticker st tk edf =
     (case spikes_by_ticker tk of
        None \<Rightarrow> (st, None)
      | Some spike \<Rightarrow>
          if positions st tk \<noteq> None then (st, None)
          else
            case check_entry edf spike RETRACE_PCT MFI_MIN of
              Inl e \<Rightarrow> (st, Some e)
            | Inr None \<Rightarrow> (st, None)
            | Inr (Some sg) \<Rightarrow>
                if already_sent (sent_signals st) tk ''ENTRY'' (ts_str (sig_date sg))
                then (st, None)
                else
                  let pos = \<lparr> pos_ticker = tk, entry_date = sig_date sg,
                              entry_price = price sg, spike_event = spike,
                              sl_price = or_zero (sig_sl_price sg),
                              tp_price = sig_tp_price sg,
                              highest_since_entry = price sg \<rparr>
                  in (st\<lparr> alerts := alerts st @ [sg],
                          sent_signals := mark_sent ts_str (sent_signals st) sg,
                          active_positions := save_position ts_str (active_positions st) pos,
                          positions := (positions st)(tk \<mapsto> pos) \<rparr>, None))"

text \<open>
  The exit part. \<open>check_exit\<close> works on the position object held in \<open>positions\<close>;
  \<open>_remove_position\<close> deletes the database row only.
\<close>

definition exit_step ::
  "(timestamp \<Rightarrow> string) \<Rightarrow> live_state \<Rightarrow> string \<Rightarrow> eframe \<Rightarrow> live_state \<times> error option" where
  "exit_step ts_str st tk edf =
     (case positions st tk of
        None \<Rightarrow> (st, None)
      | Some pos \<Rightarrow>
          let res = check_exit edf pos TP_MODE TRAILING_STOP_PCT;
              st1 = st\<lparr>positions := (positions st)(tk \<mapsto> snd res)\<rparr>
          in case fst res of
               Inl e \<Rightarrow> (st1, Some e)
             | Inr None \<Rightarrow> (st1, None)
             | Inr (Some sg) \<Rightarrow>
                 if already_sent (sent_signals st1) tk (signal_name (signal_type sg))
                      (ts_str (sig_date sg))
                 then (st1, None)
                 else (st1\<lparr> alerts := alerts st1 @ [sg],
                            sent_signals := mark_sent ts_str (sent_signals st1) sg,
                            active_positions := remove_position (active_positions st1) tk \<rparr>,
                       None))"

definition scan_ticker ::
  "(frame \<Rightarrow> eframe) \<Rightarrow> (timestamp \<Rightarrow> string) \<Rightarrow> (string \<rightharpoonup> SpikeEvent) \<Rightarrow> live_state
     \<Rightarrow> string \<times> frame \<Rightarrow> live_state \<times> error option" where
  "scan_ticker enrich_fn ts_str spikes_by_ticker st item =
     (let edf = enrich_fn (snd item);
          r1 = entry_step ts_str spikes_by_ticker st (fst item) edf
      in case snd r1 of
           Some e \<Rightarrow> r1
         | None \<Rightarrow> exit_step ts_str (fst r1) (fst item) edf)"

fun scan_all ::
  "(frame \<Rightarrow> eframe) \<Rightarrow> (timestamp \<Rightarrow> string) \<Rightarrow> (string \<rightharpoonup> SpikeEvent) \<Rightarrow> live_state
     \<Rightarrow> (string \<times> frame) list \<Rightarrow> live_state \<times> error option" where
  "scan_all enrich_fn ts_str spikes_by_ticker st [] = (st, None)"
| "scan_all enrich_fn ts_str spikes_by_ticker st (item # items) =
     (let r = scan_ticker enrich_fn ts_str spikes_by_ticker st item
      in case snd r of
           Some e \<Rightarrow> r
         | None \<Rightarrow> scan_all enrich_fn ts_str spikes_by_ticker (fst r) items)"

text \<open>
  What a run (or a part of it) from \<open>st\<close> to \<open>st'\<close> has alerted: every ENTRY alert
  is for a ticker that had no position in \<open>st\<close>.
\<close>

definition entry_alerts_flat :: "live_state \<Rightarrow> live_state \<Rightarrow> bool" where
  "entry_alerts_flat st st' =
     (\<exists>new. alerts st' = alerts st @ new
        \<and> list_all (\<lambda>sg. signal_type sg = ENTRY \<longrightarrow> positions st (sig_ticker sg) = None) new)"

text \<open>A run that starts with the example position open, and the spike events by ticker.\<close>

definition live_start :: live_state where
  "live_start =
     \<lparr> positions = [''BBCA'' \<mapsto> held_position (Fin 8645) (Fin 9000)],
       active_positions = save_position sample_str [] (held_position (Fin 8645) (Fin 9000)),
       sent_signals = [], alerts = [] \<rparr>"

definition live_spikes :: "string \<rightharpoonup> SpikeEvent" where
  "live_spikes = [''BBCA'' \<mapsto> held_spike]"

section \<open>Properties\<close>

lemma py_max_Fin [simp]: "py_max (Fin a) (Fin b) = Fin (max a b)"
  by (simp add: py_max_def max_def)

lemma fl_sub_Fin [simp]: "fl_sub (Fin a) (Fin b) = Fin (a - b)"
  by (simp add: fl_sub_def)

subsection \<open>Rounding to double precision\<close>

lemma rhe_of_int [simp]: "round_half_even (of_int n) = n"
  by (simp add: round_half_even_def)

lemma rhe_bounds: "\<lfloor>x\<rfloor> \<le> round_half_even x \<and> round_half_even x \<le> \<lfloor>x\<rfloor> + 1"
  by (simp add: round_half_even_def Let_def)

lemma rhe_lt:
  assumes "x < of_int n - 1 / 2"
  shows "round_half_even x < n"
proof -
  have fl: "\<lfloor>x\<rfloor> \<le> n - 1"
  proof -
    have "x < of_int n" using assms by linarith
    then have "\<lfloor>x\<rfloor> < n" by (simp add: floor_less_iff)
    then show ?thesis by simp
  qed
  show ?thesis
  proof (cases "\<lfloor>x\<rfloor> = n - 1")
    case True
    then have "x - of_int \<lfloor>x\<rfloor> < 1 / 2" using assms by simp
    then have "round_half_even x = \<lfloor>x\<rfloor>" by (simp add: round_half_even_def Let_def)
    with True show ?thesis by simp
  next
    case False
    with fl have "\<lfloor>x\<rfloor> + 1 < n" by simp
    with rhe_bounds [of x] show ?thesis by linarith
  qed
qed

lemma rhe_nonpos: "x \<le> 0 \<Longrightarrow> round_half_even x \<le> 0"
proof -
  assume a: "x \<le> 0"
  show ?thesis
  proof (cases "x = 0")
    case True then show ?thesis by (simp add: round_half_even_def)
  next
    case False
    with a have "x < 0" by simp
    then have "x < of_int 1 - 1 / 2" by simp
    from rhe_lt [OF this] show ?thesis by simp
  qed
qed

lemma pow2_pos [simp]: "0 < pow2 k"
  by (simp add: pow2_def)

lemma pow2_add: "pow2 (a + b) = pow2 a * pow2 b"
  by (simp add: pow2_def powr_add)

lemma pow2_diff: "pow2 (a - b) = pow2 a / pow2 b"
  by (simp add: pow2_def powr_diff)

lemma pow2_0: "pow2 0 = 1"
  by (simp add: pow2_def)

lemma pow2_neq0 [simp]: "pow2 k \<noteq> 0"
  by (simp add: pow2_def)

lemma pow2_nonneg [simp]: "0 \<le> pow2 k"
  by (simp add: pow2_def)

lemma pow2_less_iff: "pow2 a < pow2 b \<longleftrightarrow> a < b"
  by (simp add: pow2_def)

lemma pow2_nat: "0 \<le> k \<Longrightarrow> pow2 k = of_int (2 ^ nat k)"
  by (simp add: pow2_def powr_real_of_int)

lemma pow2_mono: "a \<le> b \<Longrightarrow> pow2 a \<le> pow2 b"
  by (simp add: pow2_def)

lemma pow2_less: "a < b \<Longrightarrow> pow2 a < pow2 b"
  by (simp add: pow2_def)

lemma pow2_Suc: "pow2 (k + 1) = 2 * pow2 k"
  by (simp add: pow2_def powr_add)

lemma floor_log_bracket:
  assumes "0 < y"
  shows "pow2 \<lfloor>log 2 y\<rfloor> \<le> y" and "y < pow2 (\<lfloor>log 2 y\<rfloor> + 1)"
proof -
  have "of_int \<lfloor>log 2 y\<rfloor> \<le> log 2 y" by simp
  then show "pow2 \<lfloor>log 2 y\<rfloor> \<le> y"
    using assms le_log_iff [of 2 y "of_int \<lfloor>log 2 y\<rfloor>"] unfolding pow2_def by auto
  have "log 2 y < of_int (\<lfloor>log 2 y\<rfloor> + 1)" by simp
  then show "y < pow2 (\<lfloor>log 2 y\<rfloor> + 1)"
    using assms log_less_iff [of 2 y "of_int (\<lfloor>log 2 y\<rfloor> + 1)"] unfolding pow2_def by linarith
qed

lemma floor_log_eq:
  assumes "0 < y" and "pow2 k \<le> y" and "y < pow2 (k + 1)"
  shows "\<lfloor>log 2 y\<rfloor> = k"
proof -
  from assms have a: "of_int k \<le> log 2 y" by (simp add: pow2_def le_log_iff)
  from assms have b: "log 2 y < of_int (k + 1)"
    unfolding pow2_def by (subst log_less_iff) simp_all
  from a b show ?thesis by (simp add: floor_eq_iff)
qed

lemma floor_log_mono:
  assumes "0 < x" and "x \<le> y"
  shows "\<lfloor>log 2 x\<rfloor> \<le> \<lfloor>log 2 y\<rfloor>"
proof -
  from assms have "log 2 x \<le> log 2 y" by simp
  then show ?thesis by (rule floor_mono)
qed

lemma expo_ge: "- 1022 \<le> expo x"
  by (simp add: expo_def)

lemma expo_hi:
  assumes "x \<noteq> 0"
  shows "\<bar>x\<bar> < pow2 (expo x + 1)"
proof -
  from assms have p: "0 < \<bar>x\<bar>" by simp
  have "\<lfloor>log 2 \<bar>x\<bar>\<rfloor> + 1 \<le> expo x + 1" by (simp add: expo_def)
  then have "pow2 (\<lfloor>log 2 \<bar>x\<bar>\<rfloor> + 1) \<le> pow2 (expo x + 1)" by (rule pow2_mono)
  with floor_log_bracket(2) [OF p] show ?thesis by linarith
qed

lemma expo_cases:
  assumes "x \<noteq> 0"
  shows "pow2 (expo x) \<le> \<bar>x\<bar> \<or> expo x = - 1022"
proof -
  from assms have p: "0 < \<bar>x\<bar>" by simp
  show ?thesis
  proof (cases "expo x = - 1022")
    case False
    then have "expo x = \<lfloor>log 2 \<bar>x\<bar>\<rfloor>" by (simp add: expo_def max_def split: if_splits)
    with floor_log_bracket(1) [OF p] show ?thesis by simp
  qed simp
qed

lemma expo_mono:
  assumes "0 < x" and "x \<le> y"
  shows "expo x \<le> expo y"
proof -
  from assms have "\<lfloor>log 2 \<bar>x\<bar>\<rfloor> \<le> \<lfloor>log 2 \<bar>y\<bar>\<rfloor>" by (intro floor_log_mono) simp_all
  then show ?thesis unfolding expo_def by (rule max.mono) simp
qed

lemma expo_eq:
  assumes "pow2 k \<le> \<bar>x\<bar>" and "\<bar>x\<bar> < pow2 (k + 1)" and "- 1022 \<le> k"
  shows "expo x = k"
proof -
  have "0 < pow2 k" by simp
  with assms(1) have p: "0 < \<bar>x\<bar>" by linarith
  from floor_log_eq [OF p assms(1,2)] assms(3) show ?thesis by (simp add: expo_def)
qed

lemma dbl_eval:
  assumes "pow2 k \<le> \<bar>x\<bar>" and "\<bar>x\<bar> < pow2 (k + 1)" and "- 1022 \<le> k"
  shows "dbl x = of_int (round_half_even (x / pow2 (k - 52))) * pow2 (k - 52)"
proof -
  have "0 < pow2 k" by simp
  with assms(1) have "0 < \<bar>x\<bar>" by linarith
  then have "x \<noteq> 0" by simp
  with expo_eq [OF assms] show ?thesis by (simp add: dbl_def Let_def)
qed

lemma dbl_nonpos:
  assumes "x \<le> 0"
  shows "dbl x \<le> 0"
proof (cases "x = 0")
  case True
  then show ?thesis by (simp add: dbl_def)
next
  case False
  let ?q = "pow2 (expo x - 52)"
  have "x / ?q \<le> 0" using assms by (simp add: divide_nonpos_pos)
  then have "round_half_even (x / ?q) \<le> 0" by (rule rhe_nonpos)
  then have "(of_int (round_half_even (x / ?q)) :: real) \<le> 0" by simp
  then have "of_int (round_half_even (x / ?q)) * ?q \<le> 0"
    by (rule mult_nonpos_nonneg) simp
  with False show ?thesis by (simp add: dbl_def Let_def)
qed

text \<open>
  A number with an integer significand below \<open>2^53\<close> and an exponent of at least
  \<open>-1074\<close> is a double.
\<close>

lemma dbl_dyadic:
  assumes n: "\<bar>n\<bar> < 2 ^ 53" and j: "- 1074 \<le> j"
  shows "dbl (of_int n * pow2 j) = of_int n * pow2 j"
proof (cases "n = 0")
  case True
  then show ?thesis by (simp add: dbl_def)
next
  case False
  let ?x = "of_int n * pow2 j"
  let ?k = "expo ?x"
  have x0: "?x \<noteq> 0" using False by simp
  have ax: "\<bar>?x\<bar> = of_int \<bar>n\<bar> * pow2 j" by (simp add: abs_mult)
  have "of_int \<bar>n\<bar> * pow2 j < of_int (2 ^ 53) * pow2 j" using n by (simp del: of_int_abs)
  also have "\<dots> = pow2 (53 + j)" by (simp add: pow2_add pow2_nat)
  finally have lt: "\<bar>?x\<bar> < pow2 (53 + j)" using ax by simp
  have "?k < 53 + j"
  proof -
    from expo_cases [OF x0] show ?thesis
    proof
      assume "pow2 ?k \<le> \<bar>?x\<bar>"
      with lt have "pow2 ?k < pow2 (53 + j)" by linarith
      then show ?thesis by (simp only: pow2_less_iff)
    next
      assume "?k = - 1022"
      with j show ?thesis by linarith
    qed
  qed
  then have d: "0 \<le> 52 + j - ?k" by simp
  have "?x / pow2 (?k - 52) = of_int n * pow2 (52 + j - ?k)"
    by (simp add: pow2_diff pow2_add)
  also have "\<dots> = of_int (n * 2 ^ nat (52 + j - ?k))" by (simp add: pow2_nat [OF d])
  finally have q: "?x / pow2 (?k - 52) = of_int (n * 2 ^ nat (52 + j - ?k))" .
  have "dbl ?x = of_int (round_half_even (?x / pow2 (?k - 52))) * pow2 (?k - 52)"
    using x0 by (simp add: dbl_def Let_def)
  also have "\<dots> = (?x / pow2 (?k - 52)) * pow2 (?k - 52)"
    by (simp only: q rhe_of_int)
  also have "\<dots> = ?x" by simp
  finally show ?thesis .
qed

lemma dbl_of_int: "\<bar>n\<bar> < 2 ^ 53 \<Longrightarrow> dbl (of_int n) = of_int n"
  using dbl_dyadic [of n 0] by (simp add: pow2_0)

lemma dbl_numeral [simp]: "numeral n < (2 ^ 53 :: int) \<Longrightarrow> dbl (numeral n) = numeral n"
  using dbl_of_int [of "numeral n"] by simp

lemma dbl_0 [simp]: "dbl 0 = 0"
  by (simp add: dbl_def)

lemma dbl_1 [simp]: "dbl 1 = 1"
  using dbl_of_int [of 1] by simp

text \<open>Rounding is idempotent: the result of a rounding is a double.\<close>

lemma rhe_abs_le:
  assumes "\<bar>x\<bar> \<le> of_int n"
  shows "\<bar>round_half_even x\<bar> \<le> n"
proof -
  from assms have "x \<le> of_int n" by linarith
  have up: "round_half_even x \<le> n"
  proof (cases "x = of_int n")
    case True then show ?thesis by simp
  next
    case False
    with \<open>x \<le> of_int n\<close> have "x < of_int n" by simp
    then have "\<lfloor>x\<rfloor> < n" by (simp add: floor_less_iff)
    with rhe_bounds [of x] show ?thesis by linarith
  qed
  from assms have "of_int (- n) \<le> x" by simp
  then have "- n \<le> \<lfloor>x\<rfloor>" by (simp only: le_floor_iff)
  with rhe_bounds [of x] have "- n \<le> round_half_even x" by linarith
  with up show ?thesis by linarith
qed

lemma dbl_idem: "dbl (dbl y) = dbl y"
proof (cases "y = 0")
  case True
  then show ?thesis by simp
next
  case False
  let ?k = "expo y"
  let ?q = "pow2 (?k - 52)"
  let ?m = "round_half_even (y / ?q)"
  have dy: "dbl y = of_int ?m * ?q" using False by (simp add: dbl_def Let_def)
  have "\<bar>y\<bar> < pow2 (?k + 1)" using False by (rule expo_hi)
  also have "\<dots> = of_int (2 ^ 53) * ?q"
    using pow2_add [of 53 "?k - 52"] by (simp add: pow2_nat add.commute)
  finally have "\<bar>y\<bar> / ?q < of_int (2 ^ 53)" by (simp add: pos_divide_less_eq)
  then have "\<bar>y / ?q\<bar> \<le> of_int (2 ^ 53)" by (simp add: abs_divide del: of_int_numeral of_int_power) 
  then have m: "\<bar>?m\<bar> \<le> 2 ^ 53" by (rule rhe_abs_le)
  have j: "- 1074 \<le> ?k - 52" using expo_ge [of y] by simp
  show ?thesis
  proof (cases "\<bar>?m\<bar> < 2 ^ 53")
    case True
    from dbl_dyadic [OF True j] show ?thesis by (simp only: dy)
  next
    case False
    with m have "\<bar>?m\<bar> = 2 ^ 53" by simp
    then have "?m = 2 ^ 53 \<or> ?m = - (2 ^ 53)" by linarith
    then have "of_int ?m * ?q = of_int 1 * pow2 (?k + 1) \<or> of_int ?m * ?q = of_int (- 1) * pow2 (?k + 1)"
      using pow2_add [of 53 "?k - 52"] by (auto simp add: pow2_nat add.commute)
    moreover have "dbl (of_int 1 * pow2 (?k + 1)) = of_int 1 * pow2 (?k + 1)"
      using expo_ge [of y] by (intro dbl_dyadic) simp_all
    moreover have "dbl (of_int (- 1) * pow2 (?k + 1)) = of_int (- 1) * pow2 (?k + 1)"
      using expo_ge [of y] by (intro dbl_dyadic) simp_all
    ultimately show ?thesis unfolding dy by metis
  qed
qed

text \<open>The largest double below 1 is \<open>1 - 2^-53\<close>.\<close>

lemma dbl_below_one:
  assumes d: "dbl f = f" and p: "0 < f" and l: "f < 1"
  shows "f \<le> 1 - pow2 (- 53)"
proof -
  have ax: "\<bar>f\<bar> = f" using p by simp
  have f0: "f \<noteq> 0" using p by simp
  let ?k = "expo f"
  from expo_hi [OF f0] ax have hi: "f < pow2 (?k + 1)" by simp
  show ?thesis
  proof (cases "?k \<le> - 2")
    case True
    then have "?k + 1 \<le> - 1" by simp
    then have "pow2 (?k + 1) \<le> pow2 (- 1)" by (rule pow2_mono)
    with hi have "f < pow2 (- 1)" by simp
    moreover have "pow2 (- 1) + pow2 (- 53) \<le> 1"
      by (simp add: pow2_def powr_minus)
    ultimately show ?thesis by simp
  next
    case False
    have "?k \<noteq> - 1022" using False by simp
    with expo_cases [OF f0] ax have "pow2 ?k \<le> f" by simp
    with l have "pow2 ?k < pow2 0" by (simp add: pow2_0)
    then have "?k < 0" by (simp only: pow2_less_iff)
    with False have k: "?k = - 1" by linarith
    let ?m = "round_half_even (f / pow2 (?k - 52))"
    from d p have "f = of_int ?m * pow2 (?k - 52)" by (simp add: dbl_def Let_def)
    with k have f: "f = of_int ?m * pow2 (- 53)" by simp
    have one: "(1::real) = of_int (2 ^ 53) * pow2 (- 53)"
      by (simp add: pow2_def powr_minus)
    from l f one have "of_int ?m * pow2 (- 53) < of_int (2 ^ 53) * pow2 (- 53)" by simp
    then have "(of_int ?m :: real) < of_int (2 ^ 53)" by (simp del: of_int_numeral of_int_power)
    then have "?m < 2 ^ 53" by (simp only: of_int_less_iff)
    then have "?m \<le> 2 ^ 53 - 1" by simp
    then have "(of_int ?m :: real) \<le> of_int (2 ^ 53 - 1)" by (simp only: of_int_le_iff)
    then have "of_int ?m * pow2 (- 53) \<le> of_int (2 ^ 53 - 1) * pow2 (- 53)"
      by (simp del: of_int_diff of_int_numeral of_int_power)
    also have "\<dots> = 1 - pow2 (- 53)" by (simp add: algebra_simps one [symmetric]) (simp add: pow2_def powr_minus)
    finally show ?thesis using f by simp
  qed
qed

text \<open>
  Multiplying a double above the smallest normal number by a double factor below 1
  gives, after rounding, a strictly smaller double.
\<close>

lemma dbl_mul_below:
  assumes e: "pow2 (- 1022) < e" and de: "dbl e = e" and f: "f < 1" and df: "dbl f = f"
  shows "dbl (e * f) < e"
proof (cases "0 < f")
  case False
  have e0: "0 < e" using e pow2_pos [of "- 1022"] by linarith
  from False e0 have "e * f \<le> 0" by (simp add: mult_nonneg_nonpos)
  then have "dbl (e * f) \<le> 0" by (rule dbl_nonpos)
  with e0 show ?thesis by linarith
next
  case True
  have e0: "0 < e" using e pow2_pos [of "- 1022"] by linarith
  let ?x = "e * f"
  let ?kx = "expo ?x"
  let ?ke = "expo e"
  let ?q = "pow2 (?kx - 52)"
  have x0: "0 < ?x" using e0 True by simp
  have xe: "?x < e" using e0 f by simp
  have fb: "f \<le> 1 - pow2 (- 53)" using df True f by (rule dbl_below_one)
  have "e * f \<le> e * (1 - pow2 (- 53))" using fb e0 by simp
  then have xb: "?x \<le> e - e * pow2 (- 53)" by (simp add: algebra_simps)
  have kk: "?kx \<le> ?ke"
  proof (rule expo_mono)
    show "0 < ?x" by (rule x0)
    show "?x \<le> e" using xe by (rule less_imp_le)
  qed
  have ek: "pow2 ?kx < e"
  proof -
    have ne: "?x \<noteq> 0" using e0 True by simp
    have ab: "\<bar>?x\<bar> = ?x" using x0 by (simp only: abs_of_pos)
    from expo_cases [OF ne] have "pow2 ?kx \<le> ?x \<or> ?kx = - 1022" by (simp only: ab)
    then show ?thesis
    proof
      assume "pow2 ?kx \<le> ?x" with xe show ?thesis by linarith
    next
      assume "?kx = - 1022" with e show ?thesis by simp
    qed
  qed
  have q2: "?q = 2 * pow2 (?kx - 53)" using pow2_Suc [of "?kx - 53"] by simp
  have "pow2 (?kx - 53) = pow2 ?kx * pow2 (- 53)" using pow2_add [of ?kx "- 53"] by simp
  also have "\<dots> < e * pow2 (- 53)" using ek by simp
  finally have half: "?q / 2 < e * pow2 (- 53)" using q2 by simp
  let ?m = "round_half_even (e / pow2 (?ke - 52))"
  have em: "e = of_int ?m * pow2 (?ke - 52)" using de e0 by (simp add: dbl_def Let_def)
  have d: "0 \<le> ?ke - ?kx" using kk by simp
  define N where "N = ?m * 2 ^ nat (?ke - ?kx)"
  have "e / ?q = of_int ?m * (pow2 (?ke - 52) / ?q)" by (subst em) simp
  also have "pow2 (?ke - 52) / ?q = pow2 (?ke - ?kx)"
    using pow2_diff [of "?ke - 52" "?kx - 52"] by simp
  also have "of_int ?m * pow2 (?ke - ?kx) = of_int N" by (simp add: N_def pow2_nat [OF d])
  finally have eN: "e / ?q = of_int N" .
  have "?x < e - ?q / 2" using xb half by linarith
  then have "?x / ?q < (e - ?q / 2) / ?q" by (simp add: divide_strict_right_mono)
  also have "\<dots> = of_int N - 1 / 2" by (simp add: diff_divide_distrib eN)
  finally have "round_half_even (?x / ?q) < N" by (rule rhe_lt)
  then have "(of_int (round_half_even (?x / ?q)) :: real) < of_int N" by (simp only: of_int_less_iff)
  then have "of_int (round_half_even (?x / ?q)) * ?q < of_int N * ?q" by simp
  also have "of_int N * ?q = e" using eN by (simp add: field_simps)
  finally show ?thesis using e0 True by (simp add: dbl_def Let_def)
qed


text \<open>Rounding is monotone with respect to the doubles.\<close>

lemma rhe_le: "x \<le> of_int n \<Longrightarrow> round_half_even x \<le> n"
proof -
  assume a: "x \<le> of_int n"
  show ?thesis
  proof (cases "x = of_int n")
    case True then show ?thesis by simp
  next
    case False
    with a have "x < of_int n" by simp
    then have "\<lfloor>x\<rfloor> < n" by (simp add: floor_less_iff)
    with rhe_bounds [of x] show ?thesis by linarith
  qed
qed

lemma rhe_ge: "of_int n \<le> x \<Longrightarrow> n \<le> round_half_even x"
proof -
  assume "of_int n \<le> x"
  then have "n \<le> \<lfloor>x\<rfloor>" by (simp only: le_floor_iff)
  with rhe_bounds [of x] show ?thesis by linarith
qed

lemma dbl_le_double:
  assumes x: "0 < x" and xd: "x \<le> d" and d: "dbl d = d"
  shows "dbl x \<le> d"
proof -
  have d0: "0 < d" using x xd by linarith
  let ?q = "pow2 (expo x - 52)"
  let ?m = "round_half_even (d / pow2 (expo d - 52))"
  have dm: "d = of_int ?m * pow2 (expo d - 52)" using d d0 by (simp add: dbl_def Let_def)
  have kk: "0 \<le> expo d - expo x" using expo_mono [OF x xd] by simp
  define N where "N = ?m * 2 ^ nat (expo d - expo x)"
  have "d / ?q = of_int ?m * (pow2 (expo d - 52) / ?q)" by (subst dm) simp
  also have "pow2 (expo d - 52) / ?q = pow2 (expo d - expo x)"
    using pow2_diff [of "expo d - 52" "expo x - 52"] by simp
  also have "of_int ?m * pow2 (expo d - expo x) = of_int N" by (simp add: N_def pow2_nat [OF kk])
  finally have dN: "d / ?q = of_int N" .
  have "x / ?q \<le> d / ?q" using xd by (simp add: divide_right_mono)
  then have "round_half_even (x / ?q) \<le> N" unfolding dN by (rule rhe_le)
  then have "(of_int (round_half_even (x / ?q)) :: real) \<le> of_int N" by (simp only: of_int_le_iff)
  then have "of_int (round_half_even (x / ?q)) * ?q \<le> of_int N * ?q" by simp
  also have "of_int N * ?q = d" using dN by (simp add: field_simps)
  finally show ?thesis using x by (simp add: dbl_def Let_def)
qed

lemma dbl_ge_double:
  assumes d0: "0 < d" and dx: "d \<le> x" and d: "dbl d = d"
  shows "d \<le> dbl x"
proof -
  have x0: "0 < x" using d0 dx by linarith
  have ne: "x \<noteq> 0" and ab: "\<bar>x\<bar> = x" using x0 by simp_all
  have dne: "d \<noteq> 0" and dab: "\<bar>d\<bar> = d" using d0 by simp_all
  let ?q = "pow2 (expo x - 52)"
  have dx': "dbl x = of_int (round_half_even (x / ?q)) * ?q" using ne by (simp add: dbl_def Let_def)
  have kk: "expo d \<le> expo x" using d0 dx by (rule expo_mono)
  show ?thesis
  proof (cases "expo d = expo x")
    case True
    let ?m = "round_half_even (d / ?q)"
    have dm: "d = of_int ?m * ?q" using d dne True by (simp add: dbl_def Let_def)
    then have "d / ?q = of_int ?m" by (simp add: field_simps)
    moreover have "d / ?q \<le> x / ?q" using dx by (simp add: divide_right_mono)
    ultimately have "of_int ?m \<le> x / ?q" by simp
    then have "?m \<le> round_half_even (x / ?q)" by (rule rhe_ge)
    then have "(of_int ?m :: real) \<le> of_int (round_half_even (x / ?q))" by (simp only: of_int_le_iff)
    then have "of_int ?m * ?q \<le> of_int (round_half_even (x / ?q)) * ?q" by simp
    then show ?thesis using dm dx' by simp
  next
    case False
    with kk have lt: "expo d + 1 \<le> expo x" by simp
    have "expo x \<noteq> - 1022" using lt expo_ge [of d] by linarith
    with expo_cases [OF ne] ab have lo: "pow2 (expo x) \<le> x" by simp
    have p: "pow2 (expo x) = of_int (2 ^ 52) * ?q"
      using pow2_add [of 52 "expo x - 52"] by (simp add: pow2_nat)
    then have "pow2 (expo x) / ?q = of_int (2 ^ 52)" by (simp add: field_simps)
    moreover have "pow2 (expo x) / ?q \<le> x / ?q" using lo by (simp add: divide_right_mono)
    ultimately have "of_int (2 ^ 52) \<le> x / ?q" by simp
    then have "2 ^ 52 \<le> round_half_even (x / ?q)" by (rule rhe_ge)
    then have "(of_int (2 ^ 52) :: real) \<le> of_int (round_half_even (x / ?q))"
      by (simp only: of_int_le_iff)
    then have "of_int (2 ^ 52) * ?q \<le> of_int (round_half_even (x / ?q)) * ?q" by simp
    then have "pow2 (expo x) \<le> dbl x" using p dx' by simp
    moreover have "d < pow2 (expo d + 1)" using expo_hi [OF dne] dab by simp
    moreover have "pow2 (expo d + 1) \<le> pow2 (expo x)" using lt by (rule pow2_mono)
    ultimately show ?thesis by linarith
  qed
qed

lemma pow2_numeral: "pow2 (numeral n) = 2 ^ numeral n"
  by (simp add: pow2_def)

lemma pow2_neg_numeral: "pow2 (- numeral n) = 1 / 2 ^ numeral n"
  by (simp add: pow2_def powr_minus inverse_eq_divide)

lemma pow2_m1: "pow2 (- 1) = 1 / 2"
  by (simp add: pow2_def powr_minus inverse_eq_divide)

lemmas pow2_eval = pow2_neg_numeral pow2_numeral pow2_m1 pow2_0


lemma dbl_one_minus_tiny: "dbl (1 - 1 / 2 ^ 60) = 1"
  using dbl_eval [of "- 1" "1 - 1 / 2 ^ 60"]
  by (simp add: pow2_eval round_half_even_def Let_def)

lemma dbl_5_100: "dbl (5 / 100) = 3602879701896397 / 2 ^ 56"
  using dbl_eval [of "- 5" "5 / 100"]
  by (simp add: pow2_eval round_half_even_def Let_def)

lemma dbl_095: "dbl (1 - 3602879701896397 / 2 ^ 56) = 4278419646001971 / 2 ^ 52"
  using dbl_eval [of "- 1" "1 - 3602879701896397 / 2 ^ 56"]
  by (simp add: pow2_eval round_half_even_def Let_def)

lemma dbl_8075: "dbl (8500 * (4278419646001971 / 2 ^ 52)) = 8075"
  using dbl_eval [of 12 "8500 * (4278419646001971 / 2 ^ 52)"]
  by (simp add: pow2_eval round_half_even_def Let_def)

subsection \<open>Rounded operations\<close>

lemma pow2_1024_gt: "x \<le> 2 ^ 53 \<Longrightarrow> x < pow2 1024"
proof -
  assume "x \<le> 2 ^ 53"
  moreover have "pow2 53 < pow2 1024" by (rule pow2_less) simp
  moreover have "pow2 53 = 2 ^ 53" by (simp add: pow2_numeral)
  ultimately show ?thesis by linarith
qed

lemma fl_rnd_small:
  assumes "dbl x = y" and "\<bar>y\<bar> \<le> 2 ^ 53"
  shows "fl_rnd (Fin x) = Fin y"
proof -
  from assms(2) have "y \<le> 2 ^ 53" and "- y \<le> 2 ^ 53" by linarith+
  from this(1) have "y < pow2 1024" by (rule pow2_1024_gt)
  moreover from \<open>- y \<le> 2 ^ 53\<close> have "- y < pow2 1024" by (rule pow2_1024_gt)
  ultimately show ?thesis using assms(1) by (simp add: fl_rnd_def Let_def)
qed

lemma fl_rnd_numeral [simp]:
  "numeral n < (2 ^ 53 :: int) \<Longrightarrow> fl_rnd (Fin (numeral n)) = Fin (numeral n)"
  by (rule fl_rnd_small) simp_all

lemma fl_rnd_cases:
  "fl_rnd (Fin x) = Fin (dbl x) \<and> dbl x < pow2 1024 \<and> - pow2 1024 < dbl x
   \<or> fl_rnd (Fin x) = PInf \<and> pow2 1024 \<le> dbl x
   \<or> fl_rnd (Fin x) = NInf \<and> dbl x \<le> - pow2 1024"
  by (simp add: fl_rnd_def Let_def)

lemma fl_rnd_special [simp]: "fl_rnd PInf = PInf" "fl_rnd NInf = NInf" "fl_rnd NaN = NaN"
  by (simp_all add: fl_rnd_def)

lemma fl_rnd_not_nan: "v \<noteq> NaN \<Longrightarrow> fl_rnd v \<noteq> NaN"
  by (cases v) (simp_all add: fl_rnd_def Let_def)

lemma fl_rnd_double: "fl_rnd v = Fin r \<Longrightarrow> dbl r = r \<and> r < pow2 1024"
  by (cases v) (auto simp add: fl_rnd_def Let_def dbl_idem split: if_splits)

lemma np_div_100_not_nan: "v \<noteq> NaN \<Longrightarrow> np_div v (Fin 100) \<noteq> NaN"
  by (cases v) (simp_all add: inf_of_sign_def)

lemma py_max_not_nan: "a \<noteq> NaN \<Longrightarrow> py_max a b \<noteq> NaN"
  by (cases a; cases b) (simp_all add: py_max_def)

lemma fl_sub_Fin_not_nan: "m \<noteq> NaN \<Longrightarrow> fl_sub (Fin p) m \<noteq> NaN"
  by (cases m) (simp_all add: fl_sub_def)

lemma fl_not_ge_lt: "v \<noteq> NaN \<Longrightarrow> \<not> fl_le (Fin e) v \<Longrightarrow> fl_lt v (Fin e)"
  by (cases v) simp_all

text \<open>
  The factor \<open>1 - sl_pct / 100\<close> of the fallback: for \<open>sl_pct\<close> of at least \<open>100 * 2^-53\<close>
  it is, after rounding, a double below 1 (or minus infinity, for an \<open>sl_pct\<close> beyond
  the range of the doubles).
\<close>

lemma sl_factor_below_one:
  assumes s: "100 * pow2 (- 53) \<le> s"
  shows "fl_rnd (fl_sub (Fin 1) (fl_rnd (np_div (Fin s) (Fin 100)))) = NInf
         \<or> (\<exists>f. fl_rnd (fl_sub (Fin 1) (fl_rnd (np_div (Fin s) (Fin 100)))) = Fin f
                \<and> f < 1 \<and> dbl f = f)"
proof -
  let ?d = "pow2 (- 53)"
  have dd: "dbl ?d = ?d" using dbl_dyadic [of 1 "- 53"] by simp
  have d1: "dbl (1 - ?d) = 1 - ?d"
  proof -
    have "1 - ?d = of_int (2 ^ 53 - 1) * ?d" by (simp add: pow2_neg_numeral algebra_simps)
    moreover have "dbl (of_int (2 ^ 53 - 1) * ?d) = of_int (2 ^ 53 - 1) * ?d"
      by (rule dbl_dyadic) simp_all
    ultimately show ?thesis by (simp only:)
  qed
  have t0: "?d \<le> s / 100" using s by simp
  have tl: "?d \<le> dbl (s / 100)" using _ t0 dd by (rule dbl_ge_double) simp
  have np: "np_div (Fin s) (Fin 100) = Fin (s / 100)" by simp
  have pos: "0 < ?d" by simp
  from fl_rnd_cases [of "s / 100"] show ?thesis
  proof (elim disjE conjE)
    assume r: "fl_rnd (Fin (s / 100)) = Fin (dbl (s / 100))"
    let ?x = "1 - dbl (s / 100)"
    have xd: "?x \<le> 1 - ?d" using tl by simp
    have le: "dbl ?x \<le> 1 - ?d"
    proof (cases "0 < ?x")
      case True
      from True xd d1 show ?thesis by (rule dbl_le_double)
    next
      case False
      then have "dbl ?x \<le> 0" by (intro dbl_nonpos) simp
      moreover have "?d \<le> 1" by (simp add: pow2_neg_numeral)
      ultimately show ?thesis by linarith
    qed
    then have lt1: "dbl ?x < 1" using pos by linarith
    then have "dbl ?x < pow2 1024" by (intro pow2_1024_gt) simp
    with fl_rnd_cases [of ?x] have
      "fl_rnd (Fin ?x) = NInf \<or> fl_rnd (Fin ?x) = Fin (dbl ?x)" by auto
    then show ?thesis using lt1 by (auto simp add: np r dbl_idem)
  next
    assume "fl_rnd (Fin (s / 100)) = PInf"
    then show ?thesis by (simp add: np fl_sub_def)
  next
    assume "dbl (s / 100) \<le> - pow2 1024"
    with tl pos pow2_pos [of 1024] show ?thesis by linarith
  qed
qed

lemma sl_factor_lt_one:
  assumes "100 * pow2 (- 53) \<le> s"
  shows "fl_lt (fl_rnd (fl_sub (Fin 1) (fl_rnd (np_div (Fin s) (Fin 100))))) (Fin 1)"
  using sl_factor_below_one [OF assms] by auto

lemma adaptive_sl_lt_entry:
  assumes ed: "fl_rnd (Fin e) = Fin e" and e: "pow2 (- 1022) < e"
    and s: "fl_lt (fl_rnd (fl_sub (Fin 1) (fl_rnd (np_div (Fin s) (Fin 100))))) (Fin 1)"
  shows "fl_lt (adaptive_sl (Fin p) atr (Fin s) (Some (Fin e))) (Fin e)"
proof -
  let ?pct = "fl_rnd (np_div (fl_rnd (fl_mul (Fin p) (Fin s))) (Fin 100))"
  let ?sl = "fl_rnd (fl_sub (Fin p) (py_max ?pct atr))"
  let ?F = "fl_rnd (fl_sub (Fin 1) (fl_rnd (np_div (Fin s) (Fin 100))))"
  have e0: "0 < e" using e pow2_pos [of "- 1022"] by linarith
  from fl_rnd_double [OF ed] have de: "dbl e = e" and eb: "e < pow2 1024" by simp_all
  have eq: "adaptive_sl (Fin p) atr (Fin s) (Some (Fin e)) =
              (if fl_ge ?sl (Fin e) then fl_rnd (fl_mul (Fin e) ?F) else ?sl)"
    by (simp add: adaptive_sl_def Let_def)
  have nn: "?sl \<noteq> NaN"
    by (intro fl_rnd_not_nan fl_sub_Fin_not_nan py_max_not_nan np_div_100_not_nan) simp
  show ?thesis
  proof (cases "fl_ge ?sl (Fin e)")
    case False
    with nn have "fl_lt ?sl (Fin e)" by (rule fl_not_ge_lt)
    with False eq show ?thesis by simp
  next
    case True
    have "fl_lt (fl_rnd (fl_mul (Fin e) ?F)) (Fin e)"
    proof (cases ?F)
      case (Fin f)
      from s have f: "f < 1" unfolding Fin by simp
      from fl_rnd_double [OF Fin] have df: "dbl f = f" by simp
      from e de f df have lt: "dbl (e * f) < e" by (rule dbl_mul_below)
      with eb have "dbl (e * f) < pow2 1024" by linarith
      with fl_rnd_cases [of "e * f"] have
        "fl_rnd (Fin (e * f)) = NInf \<or> fl_rnd (Fin (e * f)) = Fin (dbl (e * f))" by auto
      then show ?thesis unfolding Fin using lt by auto
    next
      case NInf
      show ?thesis unfolding NInf using e0 by (simp add: inf_of_sign_def)
    next
      case PInf
      with s show ?thesis by simp
    next
      case NaN
      with s show ?thesis by simp
    qed
    with True eq show ?thesis by simp
  qed
qed

text \<open>Below the smallest normal double the doubles are the multiples of \<open>2^-1074\<close>.\<close>

lemma dbl_subnormal:
  assumes "x \<noteq> 0" and "\<bar>x\<bar> < pow2 (- 1022)"
  shows "dbl x = of_int (round_half_even (x / pow2 (- 1074))) * pow2 (- 1074)"
proof -
  from assms(1) have p: "0 < \<bar>x\<bar>" by simp
  from floor_log_bracket(1) [OF p] assms(2) have "pow2 \<lfloor>log 2 \<bar>x\<bar>\<rfloor> < pow2 (- 1022)"
    by linarith
  then have "\<lfloor>log 2 \<bar>x\<bar>\<rfloor> < - 1022" by (simp only: pow2_less_iff)
  then have "expo x = - 1022" by (simp add: expo_def)
  with assms(1) show ?thesis by (simp add: dbl_def Let_def)
qed

lemma adaptive_sl_tiny_entry:
  "adaptive_sl (Fin 1) (Fin 0) (Fin 5) (Some (Fin (pow2 (- 1074)))) = Fin (pow2 (- 1074))"
proof -
  let ?e = "pow2 (- 1074)"
  let ?f = "4278419646001971 / 2 ^ 52 :: real"
  have 1: "fl_rnd (Fin (5 / 100)) = Fin (3602879701896397 / 2 ^ 56)"
    using dbl_5_100 by (rule fl_rnd_small) simp
  have 2: "fl_rnd (Fin (1 - 3602879701896397 / 2 ^ 56)) = Fin ?f"
    using dbl_095 by (rule fl_rnd_small) simp
  have lt: "?e < pow2 (- 1022)" by (rule pow2_less) simp
  have pos: "0 < ?e * ?f" and below: "?e * ?f < ?e" by simp_all
  have ne: "?e * ?f \<noteq> 0" using pos by linarith
  have "\<bar>?e * ?f\<bar> < pow2 (- 1022)" using pos below lt by linarith
  with ne have "dbl (?e * ?f) = of_int (round_half_even (?e * ?f / ?e)) * ?e"
    by (rule dbl_subnormal)
  also have "?e * ?f / ?e = ?f" by simp
  also have "round_half_even ?f = 1" by (simp add: round_half_even_def Let_def)
  finally have d: "dbl (?e * ?f) = ?e" by simp
  have "?e \<le> pow2 (- 1)" by (rule pow2_mono) simp
  then have le: "?e \<le> ?f" by (simp add: pow2_m1)
  have "?e < pow2 0" by (rule pow2_less) simp
  then have "\<bar>?e\<bar> \<le> 2 ^ 53" by (simp add: pow2_0)
  with d have 3: "fl_rnd (Fin (?e * ?f)) = Fin ?e" by (rule fl_rnd_small)
  have sl: "fl_rnd (fl_sub (Fin 1)
              (py_max (fl_rnd (np_div (fl_rnd (fl_mul (Fin 1) (Fin 5))) (Fin 100))) (Fin 0)))
            = Fin ?f"
    using 1 2 by (simp add: max_def)
  have fac: "fl_rnd (fl_sub (Fin 1) (fl_rnd (np_div (Fin 5) (Fin 100)))) = Fin ?f"
    using 1 2 by simp
  show ?thesis
    unfolding adaptive_sl_def Let_def sl fac using le 3 by simp
qed

lemma adaptive_sl_smallest_normal:
  "adaptive_sl (Fin 1) (Fin 0) (Fin (25 / 2 ^ 51)) (Some (Fin (pow2 (- 1022))))
     = Fin (pow2 (- 1022))"
proof -
  let ?e = "pow2 (- 1022)"
  let ?f = "1 - 1 / 2 ^ 53 :: real"
  have 1: "fl_rnd (Fin (25 / 2 ^ 51)) = Fin (25 / 2 ^ 51)"
    using dbl_dyadic [of 25 "- 51"] by (intro fl_rnd_small) (simp_all add: pow2_eval)
  have 2: "fl_rnd (Fin (25 / 2 ^ 51 / 100)) = Fin (1 / 2 ^ 53)"
    using dbl_dyadic [of 1 "- 53"] by (intro fl_rnd_small) (simp_all add: pow2_eval)
  have 3: "fl_rnd (Fin ?f) = Fin ?f"
    using dbl_dyadic [of "2 ^ 53 - 1" "- 53"] by (intro fl_rnd_small) (simp_all add: pow2_eval)
  have pos: "0 < ?e * ?f" and below: "?e * ?f < ?e" by simp_all
  have ne: "?e * ?f \<noteq> 0" using pos by linarith
  have "\<bar>?e * ?f\<bar> < pow2 (- 1022)" using pos below by linarith
  with ne have "dbl (?e * ?f) = of_int (round_half_even (?e * ?f / pow2 (- 1074))) * pow2 (- 1074)"
    by (rule dbl_subnormal)
  also have "?e * ?f / pow2 (- 1074) = pow2 52 * ?f"
    using pow2_diff [of "- 1022" "- 1074"] by simp
  also have "pow2 52 * ?f = 2 ^ 52 - 1 / 2" by (simp add: pow2_numeral)
  also have "round_half_even (2 ^ 52 - 1 / 2) = 2 ^ 52"
    by (simp add: round_half_even_def Let_def)
  also have "of_int (2 ^ 52) * pow2 (- 1074) = ?e"
    using pow2_add [of 52 "- 1074"] by (simp add: pow2_numeral)
  finally have d: "dbl (?e * ?f) = ?e" .
  have "?e \<le> pow2 (- 1)" by (rule pow2_mono) simp
  then have le: "?e \<le> ?f" by (simp add: pow2_m1)
  have "?e < pow2 0" by (rule pow2_less) simp
  then have "\<bar>?e\<bar> \<le> 2 ^ 53" by (simp add: pow2_0)
  with d have 4: "fl_rnd (Fin (?e * ?f)) = Fin ?e" by (rule fl_rnd_small)
  have sl: "fl_rnd (fl_sub (Fin 1)
              (py_max (fl_rnd (np_div (fl_rnd (fl_mul (Fin 1) (Fin (25 / 2 ^ 51)))) (Fin 100)))
                 (Fin 0)))
            = Fin ?f"
    using 1 2 3 by (simp add: max_def)
  have fac: "fl_rnd (fl_sub (Fin 1) (fl_rnd (np_div (Fin (25 / 2 ^ 51)) (Fin 100)))) = Fin ?f"
    using 2 3 by simp
  show ?thesis
    unfolding adaptive_sl_def Let_def sl fac using le 4 by simp
qed

lemma adaptive_sl_tiny: "adaptive_sl (Fin 100) (Fin 1) (Fin (25 / 2 ^ 58)) (Some (Fin 50)) = Fin 50"
proof -
  have 1: "fl_rnd (Fin (625 / 72057594037927936)) = Fin (625 / 72057594037927936)"
    using dbl_dyadic [of 625 "- 56"] by (intro fl_rnd_small) (simp_all add: pow2_eval)
  have 2: "fl_rnd (Fin (25 / 288230376151711744)) = Fin (25 / 288230376151711744)"
    using dbl_dyadic [of 25 "- 58"] by (intro fl_rnd_small) (simp_all add: pow2_eval)
  have 3: "fl_rnd (Fin 99) = Fin 99" by (rule fl_rnd_small) simp_all
  have 4: "fl_rnd (Fin (1 / 1152921504606846976)) = Fin (1 / 1152921504606846976)"
    using dbl_dyadic [of 1 "- 60"] by (intro fl_rnd_small) (simp_all add: pow2_eval)
  have 5: "fl_rnd (Fin (1152921504606846975 / 1152921504606846976)) = Fin 1"
    using dbl_one_minus_tiny by (intro fl_rnd_small) simp_all
  have 6: "fl_rnd (Fin 50) = Fin 50" by (rule fl_rnd_small) simp_all
  show ?thesis
    by (simp add: adaptive_sl_def Let_def 1 2 3 4 5 6)
qed


lemma fl_rnd_sl_factor_5:
  "fl_rnd (fl_sub (Fin 1) (fl_rnd (np_div (Fin 5) (Fin 100)))) = Fin (4278419646001971 / 2 ^ 52)"
proof -
  have 1: "fl_rnd (Fin (5 / 100)) = Fin (3602879701896397 / 2 ^ 56)"
    using dbl_5_100 by (rule fl_rnd_small) simp
  have 2: "fl_rnd (Fin (1 - 3602879701896397 / 2 ^ 56)) = Fin (4278419646001971 / 2 ^ 52)"
    using dbl_095 by (rule fl_rnd_small) simp
  have "np_div (Fin 5) (Fin 100) = Fin (5 / 100)" by simp
  then show ?thesis by (simp only: 1 2 fl_sub_Fin)
qed

lemma fl_rnd_8075: "fl_rnd (Fin (8500 * (4278419646001971 / 2 ^ 52))) = Fin 8075"
  using dbl_8075 by (rule fl_rnd_small) simp

lemma adaptive_sl_example_sl: "adaptive_sl (Fin 9100) (Fin 50) (Fin 5) ep =
    (case ep of None \<Rightarrow> Fin 8645
     | Some e \<Rightarrow> if fl_ge (Fin 8645) e
         then fl_rnd (fl_mul e (fl_rnd (fl_sub (Fin 1) (fl_rnd (np_div (Fin 5) (Fin 100))))))
         else Fin 8645)"
proof -
  have sl: "fl_rnd (fl_sub (Fin 9100)
              (py_max (fl_rnd (np_div (fl_rnd (fl_mul (Fin 9100) (Fin 5))) (Fin 100))) (Fin 50)))
            = Fin 8645"
    by simp
  show ?thesis unfolding adaptive_sl_def Let_def sl by (rule refl)
qed

text \<open>
  C2, as stated, fails: not every positive \<open>slPct\<close> gives a stop-loss strictly below
  the entry price. With \<open>slPct = 100 * 2^-60\<close> (positive), a pre-spike close of 100, an
  ATR of 1 and an entry close of 50, the first stop-loss is \<open>100 - max(2^-60, 1) = 99\<close>,
  above the entry close; the fallback factor \<open>1 - 2^-60\<close> rounds to 1, and the
  stop-loss returned is 50, the entry price itself. And with \<open>slPct = 5\<close>, a pre-spike
  close of 1, an ATR of 0 and the smallest positive double \<open>2^-1074\<close> as entry close, the
  fallback product rounds back to \<open>2^-1074\<close>; with \<open>slPct = 100 * 2^-53\<close> and the
  smallest normal double \<open>2^-1022\<close> as entry close it rounds back to \<open>2^-1022\<close>.
\<close>

theorem adaptive_sl_not_below_entry:
  "adaptive_sl (Fin 100) (Fin 1) (Fin (25 / 2 ^ 58)) (Some (Fin 50)) = Fin 50
   \<and> (0 :: real) < 25 / 2 ^ 58
   \<and> adaptive_sl (Fin 1) (Fin 0) (Fin 5) (Some (Fin (pow2 (- 1074)))) = Fin (pow2 (- 1074))
   \<and> 0 < pow2 (- 1074) \<and> fl_rnd (Fin (pow2 (- 1074))) = Fin (pow2 (- 1074))
   \<and> adaptive_sl (Fin 1) (Fin 0) (Fin (25 / 2 ^ 51)) (Some (Fin (pow2 (- 1022))))
       = Fin (pow2 (- 1022))
   \<and> 100 * pow2 (- 53) \<le> 25 / 2 ^ 51
   \<and> fl_rnd (Fin (pow2 (- 1022))) = Fin (pow2 (- 1022))"
proof -
  have "dbl (of_int 1 * pow2 (- 1074)) = of_int 1 * pow2 (- 1074)"
    by (rule dbl_dyadic) simp_all
  then have d: "dbl (pow2 (- 1074)) = pow2 (- 1074)" by simp
  have "pow2 (- 1074) < pow2 0" by (rule pow2_less) simp
  then have "\<bar>pow2 (- 1074)\<bar> \<le> 2 ^ 53" by (simp add: pow2_0)
  with d have r1: "fl_rnd (Fin (pow2 (- 1074))) = Fin (pow2 (- 1074))" by (rule fl_rnd_small)
  have "dbl (of_int 1 * pow2 (- 1022)) = of_int 1 * pow2 (- 1022)"
    by (rule dbl_dyadic) simp_all
  then have d2: "dbl (pow2 (- 1022)) = pow2 (- 1022)" by simp
  have "pow2 (- 1022) < pow2 0" by (rule pow2_less) simp
  then have "\<bar>pow2 (- 1022)\<bar> \<le> 2 ^ 53" by (simp add: pow2_0)
  with d2 have r2: "fl_rnd (Fin (pow2 (- 1022))) = Fin (pow2 (- 1022))" by (rule fl_rnd_small)
  have s: "100 * pow2 (- 53) \<le> 25 / 2 ^ 51" by (simp add: pow2_neg_numeral)
  from adaptive_sl_tiny have a: "adaptive_sl (Fin 100) (Fin 1) (Fin (25 / 2 ^ 58)) (Some (Fin 50)) = Fin 50
   \<and> (0 :: real) < 25 / 2 ^ 58" by simp
  have p: "0 < pow2 (- 1074)" by simp
  from a adaptive_sl_tiny_entry p r1 adaptive_sl_smallest_normal s r2 show ?thesis
    by (intro conjI) simp_all
qed

text \<open>
  C2, amended. On entry the stop-loss is
  \<open>pre_spike_close - max(pre_spike_close * slPct / 100, ATR)\<close>; when that value is at or
  above the entry close it is replaced by \<open>Close * (1 - slPct / 100)\<close>, every operation
  rounded to a double. For every \<open>slPct\<close> for which \<open>1 - slPct / 100\<close> evaluates to a
  double below 1 (every \<open>slPct\<close> of at least \<open>100 * 2^-53\<close>, about \<open>1.1e-14\<close>, does:
  \<open>sl_factor_lt_one\<close>) and every entry price that is a double above \<open>2^-1022\<close>, the
  smallest normal double, the result is strictly below the entry price, whatever the
  pre-spike close and the ATR column hold (for the ATR: a number, an infinity or NaN).
  With \<open>slPct = 5\<close>, \<open>pre_spike_close = 9100\<close> and \<open>ATR = 50\<close> the stop-loss is
  \<open>8645\<close>.
\<close>

theorem adaptive_sl_below_entry:
  assumes "fl_rnd (Fin e) = Fin e" and "pow2 (- 1022) < e"
    and "fl_lt (fl_rnd (fl_sub (Fin 1) (fl_rnd (np_div (Fin s) (Fin 100))))) (Fin 1)"
  shows "adaptive_sl (Fin p) atr (Fin s) (Some (Fin e)) =
           (let sl = fl_rnd (fl_sub (Fin p)
                        (py_max (fl_rnd (np_div (fl_rnd (fl_mul (Fin p) (Fin s))) (Fin 100))) atr))
            in if fl_ge sl (Fin e)
               then fl_rnd (fl_mul (Fin e) (fl_rnd (fl_sub (Fin 1) (fl_rnd (np_div (Fin s) (Fin 100))))))
               else sl)
         \<and> fl_lt (adaptive_sl (Fin p) atr (Fin s) (Some (Fin e))) (Fin e)
         \<and> adaptive_sl (Fin 9100) (Fin 50) (Fin 5) None = Fin 8645"
proof (intro conjI)
  show "fl_lt (adaptive_sl (Fin p) atr (Fin s) (Some (Fin e))) (Fin e)"
    using assms by (rule adaptive_sl_lt_entry)
  show "adaptive_sl (Fin 9100) (Fin 50) (Fin 5) None = Fin 8645"
    by (simp add: adaptive_sl_example_sl)
qed (simp add: adaptive_sl_def Let_def)

theorem adaptive_sl_below_entry_witness:
  "adaptive_sl (Fin 9100) (Fin 50) (Fin 5) (Some (Fin 9000)) = Fin 8645
   \<and> adaptive_sl (Fin 9100) (Fin 50) (Fin 5) (Some (Fin 8500)) = Fin 8075
   \<and> fl_lt (adaptive_sl (Fin 9100) NaN (Fin 5) (Some (Fin 8500))) (Fin 8500)"
proof -
  have h1: "fl_rnd (Fin 8500) = Fin 8500" by simp
  have "pow2 (- 1022) < pow2 0" by (rule pow2_less) simp
  then have h2: "pow2 (- 1022) < 8500" by (simp add: pow2_0)
  have "100 * pow2 (- 53) \<le> 5" by (simp add: pow2_neg_numeral)
  then have h3: "fl_lt (fl_rnd (fl_sub (Fin 1) (fl_rnd (np_div (Fin 5) (Fin 100))))) (Fin 1)"
    by (rule sl_factor_lt_one)
  have a: "adaptive_sl (Fin 9100) (Fin 50) (Fin 5) (Some (Fin 9000)) = Fin 8645"
    by (simp add: adaptive_sl_example_sl)
  have b: "adaptive_sl (Fin 9100) (Fin 50) (Fin 5) (Some (Fin 8500)) = Fin 8075"
    by (simp only: adaptive_sl_example_sl fl_rnd_sl_factor_5 option.case fl_le.simps fl_mul.simps
          fl_rnd_8075) simp
  from adaptive_sl_below_entry [OF h1 h2 h3, of 9100 NaN]
  have c: "fl_lt (adaptive_sl (Fin 9100) NaN (Fin 5) (Some (Fin 8500))) (Fin 8500)" by blast
  from a b c show ?thesis by (intro conjI)
qed

subsection \<open>The spike detector\<close>

lemma shift_nth: "i < length xs \<Longrightarrow> shift xs ! i = (if i = 0 then NaN else xs ! (i - 1))"
  by (simp add: shift_def nth_Cons')

lemma length_scan_table [simp]: "length (scan_table df) = length df"
  by (simp add: scan_table_def)

lemma scan_table_nth [simp]: "i < length df \<Longrightarrow> scan_table df ! i = scan_row df i"
  by (simp add: scan_table_def)

lemma s_date_scan_row [simp]: "s_date (scan_row df i) = fst (df ! i)"
  by (simp add: scan_row_def)

lemma spike_mask_scan_row:
  assumes "i < length df"
  shows "spike_mask thr minp mina ppm (scan_row df i) \<longleftrightarrow>
           f_min_price df minp i \<and> f_avg_txn df mina i \<and> f_rvol df thr i \<and> f_green df i
           \<and> f_price_pos df ppm i \<and> f_rising df i"
  using assms
  by (auto simp add: spike_mask_def scan_row_def shift_nth f_min_price_def f_avg_txn_def
        f_rvol_def f_green_def f_price_pos_def f_rising_def)

lemma df_loc_Inr:
  assumes "df_loc tbl l = Inr row"
  shows "row \<in> set tbl \<and> s_date row = l \<and> (\<forall>r \<in> set tbl. s_date r = l \<longrightarrow> r = row)"
proof -
  from assms have f: "filter (\<lambda>r. s_date r = l) tbl = [row]"
    by (auto simp add: df_loc_def split: list.splits)
  have "set (filter (\<lambda>r. s_date r = l) tbl) = {row}" by (simp add: f)
  then show ?thesis by auto
qed

lemma spike_event_of_Inr:
  assumes "spike_event_of tk l row = Inr e"
  shows "date e = l \<and> ticker e = tk \<and> prev_close e = s_prev_close row
         \<and> close e = Fin (Close (s_bar row)) \<and> high e = Fin (High (s_bar row))"
  using assms by (auto simp add: spike_event_of_def split: sum.splits)

lemma collect_events_sound:
  assumes "collect_events tk tbl ls = Inr evs" and "e \<in> set evs"
  shows "\<exists>l \<in> set ls. \<exists>row. df_loc tbl l = Inr row \<and> spike_event_of tk l row = Inr e"
  using assms
proof (induction ls arbitrary: evs)
  case Nil
  then show ?case by simp
next
  case (Cons l ls)
  then show ?case by (fastforce split: sum.splits)
qed

lemma collect_events_complete:
  assumes "collect_events tk tbl ls = Inr evs" and "l \<in> set ls"
  shows "\<exists>e \<in> set evs. \<exists>row. df_loc tbl l = Inr row \<and> spike_event_of tk l row = Inr e"
  using assms
proof (induction ls arbitrary: evs)
  case Nil
  then show ?case by simp
next
  case (Cons l' ls)
  then show ?case by (fastforce split: sum.splits)
qed

lemma detect_spikes_collect:
  assumes "detect_spikes df tk thr minp mina ppm = Inr evs" and "VOLUME_SMA_WINDOW + 1 \<le> length df"
  shows "collect_events tk (scan_table df)
           (map s_date (filter (spike_mask thr minp mina ppm) (scan_table df))) = Inr evs"
proof -
  from assms(2) have "\<not> (df = [] \<or> length df < VOLUME_SMA_WINDOW + 1)" by auto
  with assms(1) show ?thesis by (simp only: detect_spikes_def if_False Let_def)
qed

lemma detect_spikes_short:
  assumes "detect_spikes df tk thr minp mina ppm = Inr evs" and "\<not> VOLUME_SMA_WINDOW + 1 \<le> length df"
  shows "evs = []"
proof -
  from assms(2) have "df = [] \<or> length df < VOLUME_SMA_WINDOW + 1" by auto
  with assms(1) show ?thesis by (simp only: detect_spikes_def if_True) simp
qed

lemma scan_row_in_table: "i < length df \<Longrightarrow> scan_row df i \<in> set (scan_table df)"
  unfolding scan_table_def by simp

lemma in_scan_table: "r \<in> set (scan_table df) \<Longrightarrow> \<exists>i < length df. r = scan_row df i"
  unfolding scan_table_def by auto

lemma detect_spikes_event_row:
  assumes ds: "detect_spikes df tk thr minp mina ppm = Inr evs" and e: "e \<in> set evs"
  shows "\<exists>i < length df. date e = fst (df ! i)
           \<and> spike_event_of tk (fst (df ! i)) (scan_row df i) = Inr e
           \<and> spike_mask thr minp mina ppm (scan_row df i)
           \<and> (\<forall>j < length df. fst (df ! j) = fst (df ! i) \<longrightarrow> scan_row df j = scan_row df i)"
proof -
  let ?tbl = "scan_table df"
  let ?ls = "map s_date (filter (spike_mask thr minp mina ppm) ?tbl)"
  have len: "VOLUME_SMA_WINDOW + 1 \<le> length df"
  proof (rule ccontr)
    assume "\<not> VOLUME_SMA_WINDOW + 1 \<le> length df"
    from detect_spikes_short [OF ds this] e show False by simp
  qed
  have ce: "collect_events tk ?tbl ?ls = Inr evs" by (rule detect_spikes_collect [OF ds len])
  from collect_events_sound [OF ce e] obtain l row where
    l: "l \<in> set ?ls" and loc: "df_loc ?tbl l = Inr row" and ev: "spike_event_of tk l row = Inr e"
    by blast
  from l obtain r where r: "r \<in> set ?tbl" "spike_mask thr minp mina ppm r" "s_date r = l"
    by auto
  from df_loc_Inr [OF loc] have u1: "row \<in> set ?tbl" and u2: "s_date row = l"
    and u3: "\<forall>r \<in> set ?tbl. s_date r = l \<longrightarrow> r = row" by blast+
  from r u3 have rr: "r = row" by blast
  from in_scan_table [OF u1] obtain i where i: "i < length df" "row = scan_row df i" by blast
  have li: "l = fst (df ! i)" using u2 i(2) by simp
  have uniq: "\<forall>j < length df. fst (df ! j) = fst (df ! i) \<longrightarrow> scan_row df j = scan_row df i"
  proof (intro allI impI)
    fix j assume j: "j < length df" "fst (df ! j) = fst (df ! i)"
    from j(1) have "scan_row df j \<in> set ?tbl" by (rule scan_row_in_table)
    moreover have "s_date (scan_row df j) = l" using j(2) li by simp
    ultimately have "scan_row df j = row" using u3 by blast
    then show "scan_row df j = scan_row df i" using i(2) by simp
  qed
  from spike_event_of_Inr [OF ev] have de: "date e = l" by simp
  show ?thesis
  proof (intro exI conjI)
    show "i < length df" by (rule i(1))
    show "date e = fst (df ! i)" using de li by simp
    show "spike_event_of tk (fst (df ! i)) (scan_row df i) = Inr e" using ev li i(2) by simp
    show "spike_mask thr minp mina ppm (scan_row df i)" using r(2) rr i(2) by simp
    show "\<forall>j < length df. fst (df ! j) = fst (df ! i) \<longrightarrow> scan_row df j = scan_row df i"
      by (rule uniq)
  qed
qed

lemma detect_spikes_event_bar:
  assumes ds: "detect_spikes df tk thr minp mina ppm = Inr evs" and e: "e \<in> set evs"
  shows "\<exists>i < length df. date e = fst (df ! i)
             \<and> prev_close e = Fin (Close (snd (df ! (i - 1))))
             \<and> six_filters df thr minp mina ppm i"
proof -
  from detect_spikes_event_row [OF ds e] obtain i where i1: "i < length df"
    and i2: "date e = fst (df ! i)"
    and i3: "spike_event_of tk (fst (df ! i)) (scan_row df i) = Inr e"
    and i4: "spike_mask thr minp mina ppm (scan_row df i)" by blast
  from i4 have six: "six_filters df thr minp mina ppm i"
    unfolding six_filters_def spike_mask_scan_row [OF i1] .
  then have pos: "0 < i" by (simp add: six_filters_def f_rising_def)
  have "shift (map (Fin \<circ> Close \<circ> snd) df) ! i = Fin (Close (snd (df ! (i - 1))))"
    using i1 pos by (simp add: shift_nth)
  then have "s_prev_close (scan_row df i) = Fin (Close (snd (df ! (i - 1))))"
    by (simp add: scan_row_def)
  moreover from spike_event_of_Inr [OF i3] have "prev_close e = s_prev_close (scan_row df i)"
    by blast
  ultimately have pc: "prev_close e = Fin (Close (snd (df ! (i - 1))))" by (simp only:)
  show ?thesis using i1 i2 pc six by (intro exI conjI)
qed

lemmas eval_defs = detect_spikes_def scan_table_def scan_row_def spike_mask_def df_loc_def
  spike_event_of_def py_div_def compute_rvol_def compute_avg_txn_value_def price_position_def
  rolling_mean_def shift_def replace_inf_def inf_of_sign_def fl_sub_def round_half_even_def
  VOLUME_SMA_WINDOW_def RVOL_THRESHOLD_def MIN_PRICE_def MIN_AVG_TXN_VALUE_def
  PRICE_POSITION_MIN_def Let_def upt_conv_Cons flat_bar_def surge_bar_def zero_bar_def

lemma detect_spikes_surge_frame:
  "detect_spikes surge_frame ''BBCA'' RVOL_THRESHOLD MIN_PRICE MIN_AVG_TXN_VALUE
     PRICE_POSITION_MIN = Inr [surge_event]"
  by (simp add: eval_defs surge_frame_def surge_event_def)

text \<open>
  C4. Every event that \<open>detect_spikes\<close> returns belongs to a bar of the frame on which
  all six filters hold (and carries the close of the bar before it as \<open>prev_close\<close>);
  a bar on which any one of the six filters is false has no event; and in a frame of at
  least \<open>VOLUME_SMA_WINDOW + 1\<close> bars every bar passing all six has one.
\<close>

theorem detect_spikes_filters:
  assumes ds: "detect_spikes df tk thr minp mina ppm = Inr evs"
  shows "(\<forall>e \<in> set evs. \<exists>i < length df. date e = fst (df ! i)
             \<and> prev_close e = Fin (Close (snd (df ! (i - 1))))
             \<and> six_filters df thr minp mina ppm i)
         \<and> (\<forall>i < length df.
               (\<not> f_min_price df minp i \<or> \<not> f_avg_txn df mina i \<or> \<not> f_rvol df thr i
                \<or> \<not> f_green df i \<or> \<not> f_price_pos df ppm i \<or> \<not> f_rising df i)
               \<longrightarrow> (\<forall>e \<in> set evs. date e \<noteq> fst (df ! i)))
         \<and> (\<forall>i < length df.
               VOLUME_SMA_WINDOW + 1 \<le> length df \<and> six_filters df thr minp mina ppm i
               \<longrightarrow> (\<exists>e \<in> set evs. date e = fst (df ! i)))"
proof (intro conjI ballI allI impI)
  fix e assume e: "e \<in> set evs"
  from detect_spikes_event_row [OF ds e] obtain i where i1: "i < length df"
    and i2: "date e = fst (df ! i)"
    and i3: "spike_event_of tk (fst (df ! i)) (scan_row df i) = Inr e"
    and i4: "spike_mask thr minp mina ppm (scan_row df i)" by blast
  from i4 have six: "six_filters df thr minp mina ppm i"
    unfolding six_filters_def spike_mask_scan_row [OF i1] .
  then have pos: "0 < i" by (simp add: six_filters_def f_rising_def)
  have "shift (map (Fin \<circ> Close \<circ> snd) df) ! i = Fin (Close (snd (df ! (i - 1))))"
    using i1 pos by (simp add: shift_nth)
  then have "s_prev_close (scan_row df i) = Fin (Close (snd (df ! (i - 1))))"
    by (simp add: scan_row_def)
  moreover from spike_event_of_Inr [OF i3] have "prev_close e = s_prev_close (scan_row df i)"
    by blast
  ultimately have pc: "prev_close e = Fin (Close (snd (df ! (i - 1))))" by (simp only:)
  show "\<exists>i < length df. date e = fst (df ! i)
             \<and> prev_close e = Fin (Close (snd (df ! (i - 1))))
             \<and> six_filters df thr minp mina ppm i"
    using i1 i2 pc six by (intro exI conjI)
next
  fix i e
  assume i: "i < length df"
    and n: "\<not> f_min_price df minp i \<or> \<not> f_avg_txn df mina i \<or> \<not> f_rvol df thr i
                \<or> \<not> f_green df i \<or> \<not> f_price_pos df ppm i \<or> \<not> f_rising df i"
    and e: "e \<in> set evs"
  show "date e \<noteq> fst (df ! i)"
  proof
    assume d: "date e = fst (df ! i)"
    from detect_spikes_event_row [OF ds e] obtain k where k1: "k < length df"
      and k2: "date e = fst (df ! k)" and k3: "spike_mask thr minp mina ppm (scan_row df k)"
      and k4: "\<forall>j < length df. fst (df ! j) = fst (df ! k) \<longrightarrow> scan_row df j = scan_row df k"
      by blast
    from d k2 have "fst (df ! i) = fst (df ! k)" by (simp only:)
    with k4 i have "scan_row df i = scan_row df k" by blast
    with k3 have "spike_mask thr minp mina ppm (scan_row df i)" by (simp only:)
    then have "f_min_price df minp i \<and> f_avg_txn df mina i \<and> f_rvol df thr i \<and> f_green df i
           \<and> f_price_pos df ppm i \<and> f_rising df i"
      unfolding spike_mask_scan_row [OF i] .
    with n show False by blast
  qed
next
  fix i
  assume i: "i < length df"
    and q: "VOLUME_SMA_WINDOW + 1 \<le> length df \<and> six_filters df thr minp mina ppm i"
  let ?tbl = "scan_table df"
  let ?ls = "map s_date (filter (spike_mask thr minp mina ppm) ?tbl)"
  from q have ce: "collect_events tk ?tbl ?ls = Inr evs"
    using detect_spikes_collect [OF ds] by blast
  from q have "six_filters df thr minp mina ppm i" by blast
  then have m: "spike_mask thr minp mina ppm (scan_row df i)"
    unfolding six_filters_def spike_mask_scan_row [OF i] .
  from i have "scan_row df i \<in> set ?tbl" by (rule scan_row_in_table)
  with m have "scan_row df i \<in> set (filter (spike_mask thr minp mina ppm) ?tbl)" by simp
  then have "s_date (scan_row df i) \<in> set ?ls" by (simp only: set_map) (rule imageI)
  then have "fst (df ! i) \<in> set ?ls" by (simp only: s_date_scan_row)
  from collect_events_complete [OF ce this] obtain e row where
    e1: "e \<in> set evs" and e2: "spike_event_of tk (fst (df ! i)) row = Inr e" by blast
  from spike_event_of_Inr [OF e2] have "date e = fst (df ! i)" by blast
  with e1 show "\<exists>e \<in> set evs. date e = fst (df ! i)" by blast
qed

theorem detect_spikes_filters_witness:
  "detect_spikes surge_frame ''BBCA'' RVOL_THRESHOLD MIN_PRICE MIN_AVG_TXN_VALUE
     PRICE_POSITION_MIN = Inr [surge_event]
   \<and> (\<exists>i < length surge_frame. date surge_event = fst (surge_frame ! i)
         \<and> prev_close surge_event = Fin (Close (snd (surge_frame ! (i - 1))))
         \<and> six_filters surge_frame RVOL_THRESHOLD MIN_PRICE MIN_AVG_TXN_VALUE
             PRICE_POSITION_MIN i)
   \<and> \<not> f_rvol surge_frame RVOL_THRESHOLD 9
   \<and> date surge_event \<noteq> fst (surge_frame ! 9)"
proof -
  note h = detect_spikes_surge_frame
  note t = detect_spikes_filters [OF h]
  from t have a: "\<exists>i < length surge_frame. date surge_event = fst (surge_frame ! i)
         \<and> prev_close surge_event = Fin (Close (snd (surge_frame ! (i - 1))))
         \<and> six_filters surge_frame RVOL_THRESHOLD MIN_PRICE MIN_AVG_TXN_VALUE
             PRICE_POSITION_MIN i" by simp
  have n: "\<not> f_rvol surge_frame RVOL_THRESHOLD 9"
    by (simp add: f_rvol_def eval_defs surge_frame_def)
  have l: "(9::nat) < length surge_frame" by (simp add: surge_frame_def)
  from t l n have b: "date surge_event \<noteq> fst (surge_frame ! 9)" by simp
  from h a n b show ?thesis by (intro conjI)
qed

subsection \<open>The exit check\<close>

lemma check_exit_sl:
  assumes "df \<noteq> []" and "snd (last df) ''Close'' = Some c" and "fl_le c (sl_price pos)"
  shows "check_exit df pos tp_mode trailing_pct =
           (Inr (Some (exit_signal pos STOP_LOSS (fst (last df)) c (Some (sl_price pos)) None)), pos)"
  using assms by (simp add: check_exit_def row_item_def Let_def)

lemma check_exit_trailing:
  assumes "df \<noteq> []" and "snd (last df) ''Close'' = Some c" and "\<not> fl_le c (sl_price pos)"
  shows "check_exit df pos TRAILING t =
           (if fl_gt c (entry_price pos)
               \<and> fl_lt c (fl_mul (py_max (highest_since_entry pos) c)
                             (fl_sub (Fin 1) (np_div t (Fin 100))))
            then Inr (Some (exit_signal
                   (pos\<lparr>highest_since_entry := py_max (highest_since_entry pos) c\<rparr>)
                   TAKE_PROFIT (fst (last df)) c None None))
            else Inr None,
            pos\<lparr>highest_since_entry := py_max (highest_since_entry pos) c\<rparr>)"
  using assms
  by (simp add: check_exit_def row_item_def Let_def TRAILING_def BREAKOUT_def MA_BREAKDOWN_def)

lemma check_exit_snd:
  "snd (check_exit df pos m t) = pos
   \<or> (m = TRAILING \<and> df \<noteq> []
       \<and> (\<exists>c. snd (last df) ''Close'' = Some c \<and> \<not> fl_le c (sl_price pos) \<and>
        snd (check_exit df pos m t) = pos\<lparr>highest_since_entry := py_max (highest_since_entry pos) c\<rparr>))"
proof (cases "df = []")
  case True
  then show ?thesis by (simp add: check_exit_def)
next
  case ne: False
  show ?thesis
  proof (cases "snd (last df) ''Close''")
    case None
    with ne show ?thesis by (simp add: check_exit_def row_item_def Let_def)
  next
    case (Some c)
    show ?thesis
    proof (cases "fl_le c (sl_price pos)")
      case True
      with ne Some show ?thesis by (simp add: check_exit_sl)
    next
      case sl: False
      show ?thesis
      proof (cases "m = TRAILING")
        case True
        with ne Some sl show ?thesis by (simp add: check_exit_trailing)
      next
        case False
        with ne Some sl show ?thesis
          by (simp add: check_exit_def row_item_def Let_def)
      qed
    qed
  qed
qed



lemmas exit_eval = check_exit_def row_item_def row_get_def Let_def TRAILING_def BREAKOUT_def
  MA_BREAKDOWN_def exit_signal_def held_position_def held_spike_def latest_only_def
  py_max_def fl_sub_def

text \<open>
  C3. \<open>check_exit\<close> returns at most one signal (its result is an optional signal), and
  whenever the latest close is at or below the position's stop-loss price the result is
  the STOP_LOSS signal at that close, for every take-profit mode and trailing percentage,
  so also when the mode's take-profit condition holds on the same bar.
\<close>

theorem check_exit_stop_loss_first:
  assumes "df \<noteq> []" and "snd (last df) ''Close'' = Some c" and "fl_le c (sl_price pos)"
  shows "check_exit df pos tp_mode trailing_pct =
           (Inr (Some (exit_signal pos STOP_LOSS (fst (last df)) c (Some (sl_price pos)) None)),
            pos)
         \<and> signal_type (exit_signal pos STOP_LOSS (fst (last df)) c (Some (sl_price pos)) None)
             = STOP_LOSS
         \<and> price (exit_signal pos STOP_LOSS (fst (last df)) c (Some (sl_price pos)) None) = c"
  using check_exit_sl [OF assms] by (simp add: exit_signal_def)

theorem check_exit_stop_loss_first_witness:
  "fst (check_exit (latest_only 8500 (Fin 9000)) (held_position (Fin 8645) (Fin 9000))
          MA_BREAKDOWN (Fin 3))
     = Inr (Some (exit_signal (held_position (Fin 8645) (Fin 9000)) STOP_LOSS 20 (Fin 8500)
                    (Some (Fin 8645)) None))
   \<and> fl_gt (Fin 9550) (high held_spike)
   \<and> fst (check_exit (latest_only 9550 (Fin 9000)) (held_position (Fin 9600) (Fin 9000))
          BREAKOUT (Fin 3))
     = Inr (Some (exit_signal (held_position (Fin 9600) (Fin 9000)) STOP_LOSS 20 (Fin 9550)
                    (Some (Fin 9600)) None))"
  using check_exit_stop_loss_first [of "latest_only 8500 (Fin 9000)" "Fin 8500"
          "held_position (Fin 8645) (Fin 9000)" MA_BREAKDOWN "Fin 3"]
        check_exit_stop_loss_first [of "latest_only 9550 (Fin 9000)" "Fin 9550"
          "held_position (Fin 9600) (Fin 9000)" BREAKOUT "Fin 3"]
  by (simp add: latest_only_def held_position_def held_spike_def)

text \<open>
  C10. \<open>check_exit\<close> leaves \<open>ticker\<close>, \<open>entry_date\<close>, \<open>entry_price\<close>,
  \<open>spike_event\<close>, \<open>sl_price\<close> and \<open>tp_price\<close> of the position as they were,
  whether a signal fires, none fires or the call raises; in every mode other than
  TRAILING the whole position is unchanged.
\<close>

theorem check_exit_frame:
  "pos_ticker (snd (check_exit df pos m t)) = pos_ticker pos
   \<and> entry_date (snd (check_exit df pos m t)) = entry_date pos
   \<and> entry_price (snd (check_exit df pos m t)) = entry_price pos
   \<and> spike_event (snd (check_exit df pos m t)) = spike_event pos
   \<and> sl_price (snd (check_exit df pos m t)) = sl_price pos
   \<and> tp_price (snd (check_exit df pos m t)) = tp_price pos
   \<and> (m \<noteq> TRAILING \<longrightarrow> snd (check_exit df pos m t) = pos)"
  using check_exit_snd [of df pos m t] by auto

theorem check_exit_frame_witness:
  "BREAKOUT \<noteq> TRAILING
   \<and> snd (check_exit (latest_only 9550 (Fin 9000)) (held_position (Fin 8645) (Fin 9000))
          BREAKOUT (Fin 3)) = held_position (Fin 8645) (Fin 9000)
   \<and> sl_price (snd (check_exit (latest_only 9950 (Fin 9000))
          (held_position (Fin 8645) (Fin 9900)) TRAILING (Fin 3))) = Fin 8645
   \<and> highest_since_entry (snd (check_exit (latest_only 9950 (Fin 9000))
          (held_position (Fin 8645) (Fin 9900)) TRAILING (Fin 3))) = Fin 9950"
proof -
  have n: "BREAKOUT \<noteq> TRAILING" by (simp add: BREAKOUT_def TRAILING_def)
  have h: "highest_since_entry (snd (check_exit (latest_only 9950 (Fin 9000))
          (held_position (Fin 8645) (Fin 9900)) TRAILING (Fin 3))) = Fin 9950"
    by (simp add: exit_eval)
  from n h
    check_exit_frame [of "latest_only 9550 (Fin 9000)" "held_position (Fin 8645) (Fin 9000)"
      BREAKOUT "Fin 3"]
    check_exit_frame [of "latest_only 9950 (Fin 9000)" "held_position (Fin 8645) (Fin 9900)"
      TRAILING "Fin 3"]
  show ?thesis by (simp add: held_position_def)
qed















lemma entry_step_new_position:
  assumes "positions st tk = None"
    and "positions (fst (entry_step S spikes st tk edf)) tk = Some pos"
  shows "highest_since_entry pos = entry_price pos"
  using assms
  by (auto simp add: entry_step_def Let_def split: option.splits sum.splits if_splits)



subsection \<open>The entry check\<close>

text \<open>
  Frames made by \<open>enrich\<close> have no column \<open>prev_close\<close>. On such a row
  \<open>_ema_reclaim\<close> falls back to the row's own close and compares it with the previous
  EMA; with an EMA column that follows the EMA recursion this test can never succeed.
\<close>

lemma enrich_no_prev_close:
  assumes "i < length df"
  shows "snd (enrich e a m df ! i) ''prev_close'' = None"
  using assms by (simp add: enrich_def Let_def)

lemma ema_reclaim_no_prev_close:
  assumes "r ''prev_close'' = None" and "r ''Close'' = Some c" and "r ''EMA'' = Some ema"
    and "r ''prev_EMA'' = Some pe"
  shows "ema_reclaim r = Inr (fl_gt c ema \<and> fl_le c pe)"
  using assms by (cases pe) (auto simp add: ema_reclaim_def row_get_def row_item_def)

lemma ema_step_no_reclaim:
  fixes a :: real
  assumes "a \<le> 1" and "e = pe + a * (c - pe)"
  shows "\<not> (e < c \<and> c \<le> pe)"
proof
  assume h: "e < c \<and> c \<le> pe"
  then have "0 < (1 - a) * (c - pe)" using assms(2) by (simp add: algebra_simps)
  moreover have "(1 - a) * (c - pe) \<le> 0"
    using assms(1) h by (simp add: mult_nonneg_nonpos)
  ultimately show False by simp
qed

lemma ema_reclaim_never_on_ema:
  assumes "r ''prev_close'' = None" and "r ''Close'' = Some (Fin c)"
    and "r ''EMA'' = Some (Fin (pe + a * (c - pe)))" and "r ''prev_EMA'' = Some (Fin pe)"
    and "a \<le> 1"
  shows "ema_reclaim r = Inr False"
  using ema_step_no_reclaim [OF assms(5) refl, of pe c]
  by (simp add: ema_reclaim_no_prev_close [OF assms(1-4)])

lemmas entry_eval = check_entry_def ema_reclaim_def is_near_entry_def row_item_def row_get_def
  enrich_def shift_def Let_def upt_conv_Cons crossing_frame_def crossing_raw_def
  crossing_ema_def crossing_spike_def priced_bar_def RETRACE_PCT_def MFI_MIN_def fl_sub_def

lemma check_entry_with_prev_close_column:
  "check_entry (map (\<lambda>(d, r). (d, r(''prev_close'' \<mapsto> Fin 90))) crossing_frame)
     crossing_spike RETRACE_PCT MFI_MIN =
   Inr (Some \<lparr> sig_ticker = ''BBCA'', signal_type = ENTRY, sig_date = 10, price = Fin 110,
               sig_spike_event = crossing_spike, sig_entry_price = Some (Fin 110),
               sig_sl_price = Some (Fin (209 / 2)), sig_tp_price = Some (Fin 130) \<rparr>)"
proof -
  have 1: "fl_rnd (Fin (11 / 2)) = Fin (11 / 2)"
    using dbl_dyadic [of 11 "- 1"] by (intro fl_rnd_small) (simp_all add: pow2_eval)
  have 2: "fl_rnd (Fin (209 / 2)) = Fin (209 / 2)"
    using dbl_dyadic [of 209 "- 1"] by (intro fl_rnd_small) (simp_all add: pow2_eval)
  show ?thesis
    by (simp add: entry_eval adaptive_sl_def SL_PCT_def py_max_def round_half_even_def 1 2)
qed

text \<open>
  C1. On the frame above every condition of the entry rule holds, the crossing
  included, and \<open>check_entry\<close> returns no signal: the latest row has no \<open>prev_close\<close>
  column, so the close of the latest bar, not of the previous one, is compared with the
  previous EMA.
\<close>

theorem check_entry_misses_crossing:
  "spec_entry_rule crossing_frame crossing_spike RETRACE_PCT MFI_MIN
   \<and> check_entry crossing_frame crossing_spike RETRACE_PCT MFI_MIN = Inr None"
  by (simp add: spec_entry_rule_def entry_eval)

subsection \<open>Division by zero\<close>

text \<open>
  The guarded divisions: a zero rolling average gives a NaN relative volume, a zero day
  range a NaN price position, a zero negative money flow a NaN MFI, never an infinity;
  and a pre-spike close at or below zero gives no entry, in the live check and in the
  backtest.
\<close>

lemma replace_inf_not_inf: "\<not> isinf (replace_inf v)"
  by (cases v) (simp_all add: replace_inf_def)

lemma replace_inf_of_sign: "replace_inf (inf_of_sign x) = NaN"
  by (simp add: replace_inf_def inf_of_sign_def)

lemma length_rolling_mean [simp]: "length (rolling_mean w xs) = length xs"
  by (simp add: rolling_mean_def)

lemma length_rolling_sum [simp]: "length (rolling_sum w xs) = length xs"
  by (simp add: rolling_sum_def)

lemma compute_rvol_nth:
  assumes "i < length vol"
  shows "compute_rvol vol w ! i =
           replace_inf (np_div (Fin (real_of_int (vol ! i)))
                          (rolling_mean w (map real_of_int vol) ! i))"
  using assms by (simp add: compute_rvol_def)

lemma compute_rvol_safe:
  assumes "i < length vol"
  shows "\<not> isinf (compute_rvol vol w ! i)"
    and "rolling_mean w (map real_of_int vol) ! i = Fin 0 \<Longrightarrow> compute_rvol vol w ! i = NaN"
  using assms by (simp_all add: compute_rvol_nth replace_inf_not_inf replace_inf_of_sign)

lemma price_position_safe:
  assumes "i < length df"
  shows "\<not> isinf (price_position df ! i)"
    and "High (df ! i) = Low (df ! i) \<Longrightarrow> price_position df ! i = NaN"
  using assms by (simp_all add: price_position_def replace_inf_not_inf replace_inf_of_sign)

lemma mfi_zero_negative_flow: "mfi_of pos_mf (Fin 0) = NaN"
  by (cases pos_mf) (simp_all add: mfi_of_def replace_zero_def fl_sub_def)

lemma bt_mfi_zero_negative_flow:
  assumes "i < length bars"
    and "rolling_sum w (map (neg_flow bars) [0..<length bars]) ! i = Fin 0"
  shows "bt_mfi bars w ! i = NaN"
  using assms by (simp add: bt_mfi_def mfi_zero_negative_flow)

lemma near_entry_guard: "fl_le p (Fin 0) \<Longrightarrow> \<not> is_near_entry c p r"
  by (simp add: is_near_entry_def)

lemma check_entry_guard:
  assumes "fl_le (prev_close spike) (Fin 0)"
  shows "check_entry df spike r m \<noteq> Inr (Some sg)"
  using assms
  by (auto simp add: check_entry_def Let_def near_entry_guard split: sum.splits)

lemma bt_next_buy_guard:
  assumes "Buy x \<in> set (snd (bt_next P df i inpos ep s))"
  shows "\<not> inpos \<and> fl_gt (bt_pre_spike_close (fst (bt_next P df i inpos ep s))) (Fin 0)"
  using assms by (auto simp add: bt_next_def Let_def split: if_splits)

text \<open>
  C7. The division that \<open>detect_spikes\<close> performs for \<open>pct_change\<close> is not guarded:
  it divides Python floats by the previous close. On a frame whose last bar passes all
  six filters and whose bar before it closed at zero, \<open>detect_spikes\<close> raises
  \<open>ZeroDivisionError\<close>.
\<close>

theorem detect_spikes_divides_by_zero:
  "six_filters zero_close_frame RVOL_THRESHOLD MIN_PRICE MIN_AVG_TXN_VALUE PRICE_POSITION_MIN 10
   \<and> Close (snd (zero_close_frame ! 9)) = 0
   \<and> detect_spikes zero_close_frame ''BBCA'' RVOL_THRESHOLD MIN_PRICE MIN_AVG_TXN_VALUE
       PRICE_POSITION_MIN = Inl ZeroDivisionError"
proof (intro conjI)
  show "six_filters zero_close_frame RVOL_THRESHOLD MIN_PRICE MIN_AVG_TXN_VALUE
          PRICE_POSITION_MIN 10"
    by (simp add: six_filters_def f_min_price_def f_avg_txn_def f_rvol_def f_green_def
          f_price_pos_def f_rising_def eval_defs zero_close_frame_def)
  show "Close (snd (zero_close_frame ! 9)) = 0"
    by (simp add: zero_close_frame_def zero_bar_def)
  show "detect_spikes zero_close_frame ''BBCA'' RVOL_THRESHOLD MIN_PRICE MIN_AVG_TXN_VALUE
          PRICE_POSITION_MIN = Inl ZeroDivisionError"
    by (simp add: eval_defs zero_close_frame_def)
qed

subsection \<open>The pre-spike anchor in both engines\<close>

lemma bt_next_flat_anchor:
  "bt_pre_spike_close (fst (bt_next P df i False ep s)) =
     (if bt_new_spike P df i then bt_prev_close df i else bt_pre_spike_close s)"
  by (simp add: bt_next_def Let_def)

lemma bt_new_spike_pos: "bt_new_spike P df i \<Longrightarrow> 0 < i"
  by (cases i) (simp_all add: bt_new_spike_def bt_prev_close_def Let_def)

lemmas ind_eval = bt_rvol_def bt_price_position_def bt_atr_def bt_mfi_def bt_ema_def
  rolling_mean_def rolling_sum_def replace_inf_def replace_zero_def mfi_of_def true_range_def
  pos_flow_def neg_flow_def typical_price_def money_flow_def first_valid_def
  aligned_params_def default_params_def Let_def upt_conv_Cons fl_sub_def

lemma fv_rvol: "first_valid (bt_rvol (map (Volume \<circ> snd) cheap_frame) 10) = 9"
  by (simp add: ind_eval cheap_frame_def cheap_bar_def cheap_surge_bar_def)

lemma fv_pp: "first_valid (bt_price_position (map snd cheap_frame)) = 0"
  by (simp add: ind_eval cheap_frame_def cheap_bar_def cheap_surge_bar_def)

lemma fv_atr: "first_valid (bt_atr (map snd cheap_frame) 14) = 13"
  by (simp add: ind_eval cheap_frame_def cheap_bar_def cheap_surge_bar_def)

lemma fv_mfi: "first_valid (bt_mfi (map snd cheap_frame) 14) = 13"
  by (simp add: ind_eval cheap_frame_def cheap_bar_def cheap_surge_bar_def)


lemma fv_ema: "first_valid (bt_ema (map (Close \<circ> snd) cheap_frame) 10) = 0"
  by (simp add: bt_ema_def first_valid_def cheap_frame_def upt_conv_Cons)

lemma bt_start_cheap_frame: "bt_start aligned_params cheap_frame = 14"
proof -
  have "p_vol_window aligned_params = 10" "p_ema_period aligned_params = 10"
    by (simp_all add: aligned_params_def default_params_def)
  then show ?thesis
    by (simp add: bt_start_def Let_def fv_rvol fv_pp fv_atr fv_mfi fv_ema)
qed

lemma length_cheap_frame: "length cheap_frame = 17"
  by (simp add: cheap_frame_def)

lemmas bt_eval2 = bt_new_spike_def bt_prev_close_def bt_rvol_def bt_price_position_def
  aligned_params_def default_params_def cheap_frame_def cheap_bar_def cheap_surge_bar_def
  rolling_mean_def replace_inf_def Let_def upt_conv_Cons

lemma bt_new_spike_cheap14: "\<not> bt_new_spike aligned_params cheap_frame 14"
  by (simp add: bt_eval2)

lemma bt_new_spike_cheap15: "\<not> bt_new_spike aligned_params cheap_frame 15"
  by (simp add: bt_eval2)

lemma bt_new_spike_cheap16: "bt_new_spike aligned_params cheap_frame 16"
  by (simp add: bt_eval2)

lemma bt_next_flat_no_spike:
  assumes "\<not> bt_new_spike P df i" and "isnan (bt_pre_spike_close s)"
  shows "bt_next P df i False ep s = (s, [])"
  using assms by (simp add: bt_next_def Let_def)

lemma bt_next_cheap16:
  "bt_next aligned_params cheap_frame 16 False NaN bt_init =
     (bt_init\<lparr>bt_spike_close := Fin 55, bt_pre_spike_close := Fin 50,
               bt_spike_high := Fin 55\<rparr>, [])"
proof -
  have c: "Close (map snd cheap_frame ! 16) = 55" "High (map snd cheap_frame ! 16) = 55"
    by (simp_all add: cheap_frame_def cheap_surge_bar_def upt_conv_Cons)
  have p: "bt_prev_close cheap_frame 16 = Fin 50"
    by (simp add: bt_prev_close_def cheap_frame_def cheap_bar_def upt_conv_Cons)
  have r: "p_retrace_pct aligned_params = Fin 3"
    by (simp add: aligned_params_def default_params_def)
  show ?thesis
    using bt_new_spike_cheap16
    by (simp add: bt_next_def Let_def c p r fl_sub_def)
qed

lemma bt_replay_cheap_frame:
  "bt_replay aligned_params cheap_frame =
     [(14, bt_init), (15, bt_init),
      (16, bt_init\<lparr>bt_spike_close := Fin 55, bt_pre_spike_close := Fin 50,
                     bt_spike_high := Fin 55\<rparr>)]"
proof -
  have n: "isnan (bt_pre_spike_close bt_init)" by (simp add: bt_init_def)
  have u: "[14..<17] = [14, 15, 16::nat]" by (simp add: upt_conv_Cons)
  show ?thesis
    by (simp add: bt_replay_def bt_start_cheap_frame length_cheap_frame u Let_def
          bt_next_flat_no_spike [OF bt_new_spike_cheap14 n]
          bt_next_flat_no_spike [OF bt_new_spike_cheap15 n] bt_next_cheap16)
qed

lemma detect_spikes_cheap_frame:
  "detect_spikes cheap_frame ''BBCA'' RVOL_THRESHOLD MIN_PRICE MIN_AVG_TXN_VALUE
     PRICE_POSITION_MIN = Inr []"
  by (simp add: eval_defs cheap_frame_def cheap_bar_def cheap_surge_bar_def)

lemma detect_spikes_long_surge_frame:
  "detect_spikes long_surge_frame ''BBCA'' RVOL_THRESHOLD MIN_PRICE MIN_AVG_TXN_VALUE
     PRICE_POSITION_MIN = Inr [long_surge_event]"
  by (simp add: eval_defs long_surge_frame_def calm_bar_def long_surge_event_def surge_event_def)


lemma fv_rvol_long: "first_valid (bt_rvol (map (Volume \<circ> snd) long_surge_frame) 10) = 9"
  by (simp add: ind_eval long_surge_frame_def calm_bar_def surge_bar_def)

lemma fv_pp_long: "first_valid (bt_price_position (map snd long_surge_frame)) = 0"
  by (simp add: ind_eval long_surge_frame_def calm_bar_def surge_bar_def)

lemma fv_atr_long: "first_valid (bt_atr (map snd long_surge_frame) 14) = 13"
  by (simp add: ind_eval long_surge_frame_def calm_bar_def surge_bar_def)

lemma fv_mfi_long: "first_valid (bt_mfi (map snd long_surge_frame) 14) = 13"
  by (simp add: ind_eval long_surge_frame_def calm_bar_def surge_bar_def)

lemma fv_ema_long: "first_valid (bt_ema (map (Close \<circ> snd) long_surge_frame) 10) = 0"
  by (simp add: bt_ema_def first_valid_def long_surge_frame_def upt_conv_Cons)

lemma bt_start_long_surge_frame: "bt_start aligned_params long_surge_frame = 14"
proof -
  have "p_vol_window aligned_params = 10" "p_ema_period aligned_params = 10"
    by (simp_all add: aligned_params_def default_params_def)
  then show ?thesis
    by (simp add: bt_start_def Let_def fv_rvol_long fv_pp_long fv_atr_long fv_mfi_long
          fv_ema_long)
qed

lemmas bt_eval_long = bt_new_spike_def bt_prev_close_def bt_rvol_def bt_price_position_def
  aligned_params_def default_params_def long_surge_frame_def calm_bar_def surge_bar_def
  rolling_mean_def replace_inf_def Let_def upt_conv_Cons

lemma bt_new_spike_long14: "\<not> bt_new_spike aligned_params long_surge_frame 14"
  by (simp add: bt_eval_long)

lemma bt_new_spike_long15: "\<not> bt_new_spike aligned_params long_surge_frame 15"
  by (simp add: bt_eval_long)

lemma bt_new_spike_long16: "bt_new_spike aligned_params long_surge_frame 16"
  by (simp add: bt_eval_long)

lemma bt_next_long16:
  "bt_next aligned_params long_surge_frame 16 False NaN bt_init =
     (bt_init\<lparr>bt_spike_close := Fin 1100, bt_pre_spike_close := Fin 1000,
               bt_spike_high := Fin 1100\<rparr>, [])"
proof -
  have c: "Close (map snd long_surge_frame ! 16) = 1100"
    "High (map snd long_surge_frame ! 16) = 1100"
    by (simp_all add: long_surge_frame_def surge_bar_def upt_conv_Cons)
  have p: "bt_prev_close long_surge_frame 16 = Fin 1000"
    by (simp add: bt_prev_close_def long_surge_frame_def calm_bar_def upt_conv_Cons)
  have r: "p_retrace_pct aligned_params = Fin 3"
    by (simp add: aligned_params_def default_params_def)
  show ?thesis
    using bt_new_spike_long16
    by (simp add: bt_next_def Let_def c p r fl_sub_def)
qed

lemma bt_replay_long_surge_frame:
  "bt_replay aligned_params long_surge_frame =
     [(14, bt_init), (15, bt_init),
      (16, bt_init\<lparr>bt_spike_close := Fin 1100, bt_pre_spike_close := Fin 1000,
                     bt_spike_high := Fin 1100\<rparr>)]"
proof -
  have n: "isnan (bt_pre_spike_close bt_init)" by (simp add: bt_init_def)
  have u: "[14..<17] = [14, 15, 16::nat]" by (simp add: upt_conv_Cons)
  have l: "length long_surge_frame = 17" by (simp add: long_surge_frame_def)
  show ?thesis
    by (simp add: bt_replay_def bt_start_long_surge_frame l u Let_def
          bt_next_flat_no_spike [OF bt_new_spike_long14 n]
          bt_next_flat_no_spike [OF bt_new_spike_long15 n] bt_next_long16)
qed

lemma bt_flat_run_call:
  "(j, s') \<in> set (bt_flat_run P df js s) \<Longrightarrow> \<exists>s0. s' = fst (bt_next P df j False NaN s0)"
proof (induction js arbitrary: s)
  case Nil
  then show ?case by simp
next
  case (Cons i js)
  then show ?case by (auto simp add: Let_def split: if_splits)
qed

text \<open>
  C8, as stated, fails: the two engines do not designate the same spike days. The
  backtest applies four of the six filters (no minimum price, no minimum average
  transaction value). On sixteen days around 50 followed by a surge to 55, with the
  backtest's window and threshold set to the live engine's, \<open>detect_spikes\<close> returns no
  event; the replay starts at bar 14, runs \<open>next()\<close> flat on bars 14, 15 and 16, and on
  bar 16 records a spike with anchor 50.
\<close>

theorem spike_days_differ:
  "detect_spikes cheap_frame ''BBCA'' RVOL_THRESHOLD MIN_PRICE MIN_AVG_TXN_VALUE
     PRICE_POSITION_MIN = Inr []
   \<and> p_vol_window aligned_params = VOLUME_SMA_WINDOW
   \<and> p_rvol_threshold aligned_params = RVOL_THRESHOLD
   \<and> bt_start aligned_params cheap_frame = 14
   \<and> bt_replay aligned_params cheap_frame =
       [(14, bt_init), (15, bt_init),
        (16, bt_init\<lparr>bt_spike_close := Fin 55, bt_pre_spike_close := Fin 50,
                       bt_spike_high := Fin 55\<rparr>)]
   \<and> bt_new_spike aligned_params cheap_frame 16"
proof -
  have "p_vol_window aligned_params = VOLUME_SMA_WINDOW"
    "p_rvol_threshold aligned_params = RVOL_THRESHOLD"
    by (simp_all add: aligned_params_def default_params_def VOLUME_SMA_WINDOW_def
          RVOL_THRESHOLD_def)
  with detect_spikes_cheap_frame bt_start_cheap_frame bt_replay_cheap_frame
    bt_new_spike_cheap16
  show ?thesis by (intro conjI)
qed

text \<open>
  C8, amended. Every event of \<open>detect_spikes\<close> belongs to a bar \<open>i > 0\<close> and carries
  the close of bar \<open>i - 1\<close> as \<open>prev_close\<close>; whenever \<open>next()\<close>, run flat on a bar
  \<open>j\<close> (by the replay or by any other caller), finds a spike there, \<open>j > 0\<close> and it
  records the close of bar \<open>j - 1\<close> as \<open>_pre_spike_close\<close>. So on a bar that both
  engines designate the two anchors are equal, with no off-by-one. The two engines need
  not designate the same bars.
\<close>

theorem spike_anchor_agreement:
  assumes ds: "detect_spikes df tk thr minp mina ppm = Inr evs" and e: "e \<in> set evs"
  shows "(\<exists>i < length df. date e = fst (df ! i) \<and> 0 < i
            \<and> prev_close e = Fin (Close (snd (df ! (i - 1))))
            \<and> (\<forall>P ep s. bt_new_spike P df i \<longrightarrow>
                  bt_pre_spike_close (fst (bt_next P df i False ep s)) = prev_close e)
            \<and> (\<forall>P s'. (i, s') \<in> set (bt_replay P df) \<and> bt_new_spike P df i \<longrightarrow>
                  bt_pre_spike_close s' = prev_close e))
         \<and> (\<forall>P j ep s. bt_new_spike P df j \<longrightarrow>
               0 < j \<and> bt_pre_spike_close (fst (bt_next P df j False ep s))
                        = Fin (Close (snd (df ! (j - 1)))))"
proof (rule conjI)
  from detect_spikes_event_bar [OF ds e] obtain i where i: "i < length df"
    and d: "date e = fst (df ! i)"
    and pc: "prev_close e = Fin (Close (snd (df ! (i - 1))))"
    and six: "six_filters df thr minp mina ppm i" by blast
  from six have pos: "0 < i" by (simp add: six_filters_def f_rising_def)
  have a: "\<forall>P ep s. bt_new_spike P df i \<longrightarrow>
                  bt_pre_spike_close (fst (bt_next P df i False ep s)) = prev_close e"
    using pos pc by (simp add: bt_next_flat_anchor bt_prev_close_def)
  have b: "\<forall>P s'. (i, s') \<in> set (bt_replay P df) \<and> bt_new_spike P df i \<longrightarrow>
                  bt_pre_spike_close s' = prev_close e"
  proof (intro allI impI)
    fix P s' assume h: "(i, s') \<in> set (bt_replay P df) \<and> bt_new_spike P df i"
    then obtain s0 where "s' = fst (bt_next P df i False NaN s0)"
      unfolding bt_replay_def using bt_flat_run_call by blast
    with h a show "bt_pre_spike_close s' = prev_close e" by simp
  qed
  from i d pos pc a b
  show "\<exists>i < length df. date e = fst (df ! i) \<and> 0 < i
            \<and> prev_close e = Fin (Close (snd (df ! (i - 1))))
            \<and> (\<forall>P ep s. bt_new_spike P df i \<longrightarrow>
                  bt_pre_spike_close (fst (bt_next P df i False ep s)) = prev_close e)
            \<and> (\<forall>P s'. (i, s') \<in> set (bt_replay P df) \<and> bt_new_spike P df i \<longrightarrow>
                  bt_pre_spike_close s' = prev_close e)"
    by blast
next
  show "\<forall>P j ep s. bt_new_spike P df j \<longrightarrow>
               0 < j \<and> bt_pre_spike_close (fst (bt_next P df j False ep s))
                        = Fin (Close (snd (df ! (j - 1))))"
  proof (intro allI impI)
    fix P j ep s assume n: "bt_new_spike P df j"
    from bt_new_spike_pos [OF n] have "0 < j" .
    with n show "0 < j \<and> bt_pre_spike_close (fst (bt_next P df j False ep s))
                        = Fin (Close (snd (df ! (j - 1))))"
      by (simp add: bt_next_flat_anchor bt_prev_close_def)
  qed
qed

theorem spike_anchor_agreement_witness:
  "detect_spikes long_surge_frame ''BBCA'' RVOL_THRESHOLD MIN_PRICE MIN_AVG_TXN_VALUE
     PRICE_POSITION_MIN = Inr [long_surge_event]
   \<and> bt_replay aligned_params long_surge_frame =
       [(14, bt_init), (15, bt_init),
        (16, bt_init\<lparr>bt_spike_close := Fin 1100, bt_pre_spike_close := Fin 1000,
                       bt_spike_high := Fin 1100\<rparr>)]
   \<and> bt_new_spike aligned_params long_surge_frame 16
   \<and> date long_surge_event = fst (long_surge_frame ! 16)
   \<and> bt_pre_spike_close (snd (last (bt_replay aligned_params long_surge_frame)))
       = prev_close long_surge_event"
proof -
  note h = detect_spikes_long_surge_frame
  have m: "long_surge_event \<in> set [long_surge_event]" by simp
  note t = spike_anchor_agreement [OF h m]
  note n = bt_new_spike_long16
  note r = bt_replay_long_surge_frame
  have d: "date long_surge_event = fst (long_surge_frame ! 16)"
    by (simp add: long_surge_event_def long_surge_frame_def upt_conv_Cons)
  from t n have "bt_pre_spike_close (fst (bt_next aligned_params long_surge_frame 16 False NaN
                    bt_init)) = Fin (Close (snd (long_surge_frame ! (16 - 1))))" by blast
  then have a: "bt_pre_spike_close (snd (last (bt_replay aligned_params long_surge_frame)))
       = prev_close long_surge_event"
    by (simp add: r bt_next_long16 long_surge_event_def surge_event_def)
  from h r n d a show ?thesis by (intro conjI)
qed

subsection \<open>One position per ticker\<close>

lemma check_entry_signal:
  assumes "check_entry edf spike r m = Inr (Some sg)"
  shows "signal_type sg = ENTRY \<and> sig_ticker sg = ticker spike"
  using assms by (auto simp add: check_entry_def Let_def split: if_splits sum.splits)

lemma check_exit_signal:
  assumes "fst (check_exit edf pos m t) = Inr (Some sg)"
  shows "signal_type sg \<noteq> ENTRY"
  using assms
  by (auto simp add: check_exit_def Let_def exit_signal_def split: if_splits sum.splits)

lemma entry_step_in_position:
  "positions st tk \<noteq> None \<Longrightarrow> entry_step S spikes st tk edf = (st, None)"
  by (simp add: entry_step_def split: option.splits)

lemma entry_step_effect:
  assumes "entry_step S spikes st tk edf = (st', r)"
  shows "(alerts st' = alerts st \<and> positions st' = positions st
            \<and> active_positions st' = active_positions st)
         \<or> (\<exists>sg spike pos. spikes tk = Some spike \<and> positions st tk = None
               \<and> signal_type sg = ENTRY \<and> sig_ticker sg = ticker spike
               \<and> alerts st' = alerts st @ [sg]
               \<and> positions st' = (positions st)(tk \<mapsto> pos)
               \<and> active_positions st' = save_position S (active_positions st) pos
               \<and> pos_ticker pos = tk)"
proof (cases "spikes tk")
  case None
  with assms show ?thesis by (simp add: entry_step_def)
next
  case (Some spike)
  show ?thesis
  proof (cases "positions st tk \<noteq> None")
    case True
    with assms entry_step_in_position [OF True, of S spikes edf] show ?thesis by simp
  next
    case flat: False
    show ?thesis
    proof (cases "check_entry edf spike RETRACE_PCT MFI_MIN")
      case (Inl e)
      with assms Some flat show ?thesis by (simp add: entry_step_def)
    next
      case (Inr opt)
      show ?thesis
      proof (cases opt)
        case None
        with assms Some flat Inr show ?thesis by (simp add: entry_step_def)
      next
        case sg: (Some sg)
        from Inr sg have ce: "check_entry edf spike RETRACE_PCT MFI_MIN = Inr (Some sg)"
          by simp
        note cs = check_entry_signal [OF ce]
        show ?thesis
        proof (cases "already_sent (sent_signals st) tk ''ENTRY'' (S (sig_date sg))")
          case True
          with assms Some flat ce show ?thesis by (simp add: entry_step_def)
        next
          case False
          let ?pos = "\<lparr> pos_ticker = tk, entry_date = sig_date sg,
                              entry_price = price sg, spike_event = spike,
                              sl_price = or_zero (sig_sl_price sg),
                              tp_price = sig_tp_price sg,
                              highest_since_entry = price sg \<rparr>"
          from assms Some flat ce False
          have st': "st' = st\<lparr> alerts := alerts st @ [sg],
                          sent_signals := mark_sent S (sent_signals st) sg,
                          active_positions := save_position S (active_positions st) ?pos,
                          positions := (positions st)(tk \<mapsto> ?pos) \<rparr>"
            by (simp add: entry_step_def Let_def)
          have "spikes tk = Some spike \<and> positions st tk = None
               \<and> signal_type sg = ENTRY \<and> sig_ticker sg = ticker spike
               \<and> alerts st' = alerts st @ [sg]
               \<and> positions st' = (positions st)(tk \<mapsto> ?pos)
               \<and> active_positions st' = save_position S (active_positions st) ?pos
               \<and> pos_ticker ?pos = tk"
            using Some flat cs st' by simp
          then show ?thesis by blast
        qed
      qed
    qed
  qed
qed

lemma exit_step_effect:
  assumes "exit_step S st tk edf = (st', r)"
  shows "(\<exists>new. alerts st' = alerts st @ new \<and> list_all (\<lambda>sg. signal_type sg \<noteq> ENTRY) new)
         \<and> (\<forall>k. positions st k \<noteq> None \<longrightarrow> positions st' k \<noteq> None)
         \<and> (active_positions st' = active_positions st
              \<or> active_positions st' = remove_position (active_positions st) tk)"
proof (cases "positions st tk")
  case None
  with assms show ?thesis by (simp add: exit_step_def)
next
  case (Some pos)
  obtain res pos' where ce: "check_exit edf pos TP_MODE TRAILING_STOP_PCT = (res, pos')"
    by (cases "check_exit edf pos TP_MODE TRAILING_STOP_PCT") blast
  show ?thesis
  proof (cases res)
    case (Inl e)
    with assms Some ce show ?thesis by (auto simp add: exit_step_def Let_def)
  next
    case (Inr opt)
    show ?thesis
    proof (cases opt)
      case None
      with assms Some ce Inr show ?thesis by (auto simp add: exit_step_def Let_def)
    next
      case sg: (Some sg)
      from ce Inr sg have "fst (check_exit edf pos TP_MODE TRAILING_STOP_PCT) = Inr (Some sg)"
        by simp
      from check_exit_signal [OF this] have ne: "signal_type sg \<noteq> ENTRY" .
      with assms Some ce Inr sg show ?thesis
        by (auto simp add: exit_step_def Let_def split: if_splits)
    qed
  qed
qed


lemma save_position_distinct:
  "distinct (map fst tbl) \<Longrightarrow> distinct (map fst (save_position S tbl pos))"
  by (auto simp add: save_position_def distinct_map_filter)

lemma remove_position_distinct:
  "distinct (map fst tbl) \<Longrightarrow> distinct (map fst (remove_position tbl tk))"
  by (simp add: remove_position_def distinct_map_filter)

lemma entry_alerts_flat_refl: "entry_alerts_flat st st"
  by (simp add: entry_alerts_flat_def)

lemma entry_alerts_flat_trans:
  assumes a: "entry_alerts_flat st st1" and b: "entry_alerts_flat st1 st2"
    and m: "\<forall>k. positions st k \<noteq> None \<longrightarrow> positions st1 k \<noteq> None"
  shows "entry_alerts_flat st st2"
proof -
  from a obtain n1 where n1: "alerts st1 = alerts st @ n1"
    "list_all (\<lambda>sg. signal_type sg = ENTRY \<longrightarrow> positions st (sig_ticker sg) = None) n1"
    by (auto simp add: entry_alerts_flat_def)
  from b obtain n2 where n2: "alerts st2 = alerts st1 @ n2"
    "list_all (\<lambda>sg. signal_type sg = ENTRY \<longrightarrow> positions st1 (sig_ticker sg) = None) n2"
    by (auto simp add: entry_alerts_flat_def)
  from n2(2) m have "list_all (\<lambda>sg. signal_type sg = ENTRY \<longrightarrow> positions st (sig_ticker sg) = None) n2"
    by (auto simp add: list_all_iff)
  with n1 n2 have "alerts st2 = alerts st @ (n1 @ n2)
     \<and> list_all (\<lambda>sg. signal_type sg = ENTRY \<longrightarrow> positions st (sig_ticker sg) = None) (n1 @ n2)"
    by simp
  then show ?thesis unfolding entry_alerts_flat_def by blast
qed

lemma entry_step_summary:
  assumes wf: "\<forall>k sp. spikes k = Some sp \<longrightarrow> ticker sp = k"
    and es: "entry_step S spikes st tk edf = (st', r)"
  shows "entry_alerts_flat st st'
         \<and> (\<forall>k. positions st k \<noteq> None \<longrightarrow> positions st' k \<noteq> None)
         \<and> (distinct (map fst (active_positions st))
              \<longrightarrow> distinct (map fst (active_positions st')))"
proof -
  from entry_step_effect [OF es] show ?thesis
  proof
    assume "alerts st' = alerts st \<and> positions st' = positions st
            \<and> active_positions st' = active_positions st"
    then show ?thesis by (simp add: entry_alerts_flat_def)
  next
    assume "\<exists>sg spike pos. spikes tk = Some spike \<and> positions st tk = None
               \<and> signal_type sg = ENTRY \<and> sig_ticker sg = ticker spike
               \<and> alerts st' = alerts st @ [sg]
               \<and> positions st' = (positions st)(tk \<mapsto> pos)
               \<and> active_positions st' = save_position S (active_positions st) pos
               \<and> pos_ticker pos = tk"
    then obtain sg spike pos where h: "spikes tk = Some spike" "positions st tk = None"
      "sig_ticker sg = ticker spike" "alerts st' = alerts st @ [sg]"
      "positions st' = (positions st)(tk \<mapsto> pos)"
      "active_positions st' = save_position S (active_positions st) pos" by blast
    from wf h(1) have "ticker spike = tk" by blast
    with h(2,3) have "positions st (sig_ticker sg) = None" by simp
    with h(4) have "entry_alerts_flat st st'" by (simp add: entry_alerts_flat_def)
    with h(5,6) show ?thesis by (simp add: save_position_distinct)
  qed
qed

lemma exit_step_summary:
  assumes es: "exit_step S st tk edf = (st', r)"
  shows "entry_alerts_flat st st'
         \<and> (\<forall>k. positions st k \<noteq> None \<longrightarrow> positions st' k \<noteq> None)
         \<and> (distinct (map fst (active_positions st))
              \<longrightarrow> distinct (map fst (active_positions st')))"
proof -
  from exit_step_effect [OF es] obtain new where n: "alerts st' = alerts st @ new"
    "list_all (\<lambda>sg. signal_type sg \<noteq> ENTRY) new"
    and m: "\<forall>k. positions st k \<noteq> None \<longrightarrow> positions st' k \<noteq> None"
    and d: "active_positions st' = active_positions st
              \<or> active_positions st' = remove_position (active_positions st) tk" by blast
  from n(2) have "list_all (\<lambda>sg. signal_type sg = ENTRY \<longrightarrow> positions st (sig_ticker sg) = None) new"
    by (simp add: list_all_iff)
  with n(1) have "entry_alerts_flat st st'" unfolding entry_alerts_flat_def by blast
  with m d show ?thesis by (auto simp add: remove_position_distinct)
qed

lemma scan_ticker_summary:
  assumes wf: "\<forall>k sp. spikes k = Some sp \<longrightarrow> ticker sp = k"
    and sc: "scan_ticker enr S spikes st item = (st', r)"
  shows "entry_alerts_flat st st'
         \<and> (\<forall>k. positions st k \<noteq> None \<longrightarrow> positions st' k \<noteq> None)
         \<and> (distinct (map fst (active_positions st))
              \<longrightarrow> distinct (map fst (active_positions st')))"
proof -
  obtain st1 r1 where e1: "entry_step S spikes st (fst item) (enr (snd item)) = (st1, r1)"
    by (cases "entry_step S spikes st (fst item) (enr (snd item))") blast
  note s1 = entry_step_summary [OF wf e1]
  show ?thesis
  proof (cases r1)
    case (Some e)
    with sc e1 have "st' = st1" by (simp add: scan_ticker_def Let_def)
    with s1 show ?thesis by simp
  next
    case None
    with sc e1 have e2: "exit_step S st1 (fst item) (enr (snd item)) = (st', r)"
      by (simp add: scan_ticker_def Let_def)
    note s2 = exit_step_summary [OF e2]
    from s1 s2 have "entry_alerts_flat st st'" using entry_alerts_flat_trans by blast
    with s1 s2 show ?thesis by blast
  qed
qed

lemma scan_all_summary:
  assumes wf: "\<forall>k sp. spikes k = Some sp \<longrightarrow> ticker sp = k"
  shows "scan_all enr S spikes st items = (st', r) \<Longrightarrow>
         entry_alerts_flat st st'
         \<and> (\<forall>k. positions st k \<noteq> None \<longrightarrow> positions st' k \<noteq> None)
         \<and> (distinct (map fst (active_positions st))
              \<longrightarrow> distinct (map fst (active_positions st')))"
proof (induction items arbitrary: st)
  case Nil
  then show ?case by (simp add: entry_alerts_flat_refl)
next
  case (Cons item items)
  obtain st1 r1 where t: "scan_ticker enr S spikes st item = (st1, r1)"
    by (cases "scan_ticker enr S spikes st item") blast
  note s1 = scan_ticker_summary [OF wf t]
  show ?case
  proof (cases r1)
    case (Some e)
    with Cons.prems t have "st' = st1" by (simp add: Let_def)
    with s1 show ?thesis by simp
  next
    case None
    with Cons.prems t have "scan_all enr S spikes st1 items = (st', r)" by (simp add: Let_def)
    note s2 = Cons.IH [OF this]
    from s1 s2 have "entry_alerts_flat st st'" using entry_alerts_flat_trans by blast
    with s1 s2 show ?thesis by blast
  qed
qed

lemma scan_ticker_in_position:
  assumes ip: "positions st tk \<noteq> None"
  shows "(\<exists>new. alerts (fst (scan_ticker enr S spikes st (tk, df))) = alerts st @ new
             \<and> list_all (\<lambda>sg. signal_type sg \<noteq> ENTRY) new)
         \<and> positions (fst (scan_ticker enr S spikes st (tk, df))) tk \<noteq> None"
proof -
  obtain st' r where e2: "exit_step S st tk (enr df) = (st', r)"
    by (cases "exit_step S st tk (enr df)") blast
  have "scan_ticker enr S spikes st (tk, df) = (st', r)"
    by (simp add: scan_ticker_def Let_def entry_step_in_position [OF ip] e2)
  with exit_step_effect [OF e2] ip show ?thesis by auto
qed

text \<open>
  C6. In the live loop the positions are a dictionary keyed by ticker and the table has
  the ticker as primary key, so a ticker has at most one position; the keys of the table
  stay distinct. For a ticker whose position is open the entry part of the loop body does
  nothing, the alerts of its iteration hold no ENTRY, and the position stays. Over a
  whole run, from any state, every ENTRY alert is for a ticker that was flat when the run
  began (the spike events are filed under their own ticker, as \<open>detect_spikes\<close> makes
  them). In the backtest, \<open>next\<close> places no buy order while a position is open.
\<close>

theorem entry_suppressed_while_in_position:
  assumes wf: "\<forall>k sp. spikes k = Some sp \<longrightarrow> ticker sp = k"
  shows "(positions st tk \<noteq> None \<longrightarrow>
            entry_step S spikes st tk edf = (st, None)
            \<and> (\<exists>new. alerts (fst (scan_ticker enr S spikes st (tk, df))) = alerts st @ new
                  \<and> list_all (\<lambda>sg. signal_type sg \<noteq> ENTRY) new)
            \<and> positions (fst (scan_ticker enr S spikes st (tk, df))) tk \<noteq> None)
         \<and> entry_alerts_flat st (fst (scan_all enr S spikes st items))
         \<and> (distinct (map fst (active_positions st)) \<longrightarrow>
              distinct (map fst (active_positions (fst (scan_all enr S spikes st items)))))
         \<and> Buy x \<notin> set (snd (bt_next P bars i True ep s))"
proof -
  obtain st' r where sa: "scan_all enr S spikes st items = (st', r)"
    by (cases "scan_all enr S spikes st items") blast
  note a = scan_all_summary [OF wf sa]
  have b: "Buy x \<notin> set (snd (bt_next P bars i True ep s))"
    using bt_next_buy_guard [of x P bars i True ep s] by blast
  have c: "positions st tk \<noteq> None \<longrightarrow>
            entry_step S spikes st tk edf = (st, None)
            \<and> (\<exists>new. alerts (fst (scan_ticker enr S spikes st (tk, df))) = alerts st @ new
                  \<and> list_all (\<lambda>sg. signal_type sg \<noteq> ENTRY) new)
            \<and> positions (fst (scan_ticker enr S spikes st (tk, df))) tk \<noteq> None"
    using entry_step_in_position [of st tk S spikes edf]
      scan_ticker_in_position [of st tk enr S spikes df] by blast
  from a b c sa show ?thesis by simp
qed

theorem entry_suppressed_while_in_position_witness:
  "live_spikes ''BBCA'' = Some held_spike \<and> ticker held_spike = ''BBCA''
   \<and> positions live_start ''BBCA'' \<noteq> None
   \<and> entry_step sample_str live_spikes live_start ''BBCA'' (latest_only 8500 (Fin 9000))
       = (live_start, None)
   \<and> entry_alerts_flat live_start
       (fst (scan_all (\<lambda>_. latest_only 8500 (Fin 9000)) sample_str live_spikes live_start
               [(''BBCA'', surge_frame)]))
   \<and> distinct (map fst (active_positions
       (fst (scan_all (\<lambda>_. latest_only 8500 (Fin 9000)) sample_str live_spikes live_start
               [(''BBCA'', surge_frame)]))))"
proof -
  have wf: "\<forall>k sp. live_spikes k = Some sp \<longrightarrow> ticker sp = k"
    by (simp add: live_spikes_def held_spike_def)
  have ip: "positions live_start ''BBCA'' \<noteq> None" by (simp add: live_start_def)
  have d: "distinct (map fst (active_positions live_start))"
    by (simp add: live_start_def save_position_def)
  have sp: "live_spikes ''BBCA'' = Some held_spike \<and> ticker held_spike = ''BBCA''"
    by (simp add: live_spikes_def held_spike_def)
  from sp ip d
    entry_suppressed_while_in_position [OF wf, where st = live_start and tk = "''BBCA''"
      and S = sample_str and edf = "latest_only 8500 (Fin 9000)"
      and enr = "\<lambda>_. latest_only 8500 (Fin 9000)" and items = "[(''BBCA'', surge_frame)]"]
  show ?thesis by blast
qed

end
